theory Spec2Isabelle
  imports Complex_Main
begin

section \<open>JavaScript numbers\<close>

text \<open>
  Every quantity of \<^verbatim>\<open>SupplyChainGraph.js\<close> is a JavaScript number. The model keeps the
  three non-finite values apart from the finite ones, because a division by zero and
  what becomes of its result in later ticks depend on them. A finite number is a
  real: rounding, overflow of a finite result to Infinity and the sign of zero are not
  modelled (a zero divisor is taken to be \<open>+0\<close>, which is what \<^verbatim>\<open>Math.sqrt\<close> returns).
  The operations on the non-finite values follow IEEE 754 as JavaScript does.
\<close>

datatype jsnum = Fin real | PInf | NInf | NaN

fun jneg :: "jsnum \<Rightarrow> jsnum" where
  "jneg (Fin a) = Fin (- a)"
| "jneg PInf = NInf"
| "jneg NInf = PInf"
| "jneg NaN = NaN"

fun jadd :: "jsnum \<Rightarrow> jsnum \<Rightarrow> jsnum" where
  "jadd (Fin a) (Fin b) = Fin (a + b)"
| "jadd NaN _ = NaN"
| "jadd _ NaN = NaN"
| "jadd PInf NInf = NaN"
| "jadd NInf PInf = NaN"
| "jadd PInf _ = PInf"
| "jadd NInf _ = NInf"
| "jadd _ PInf = PInf"
| "jadd _ NInf = NInf"

definition jsub :: "jsnum \<Rightarrow> jsnum \<Rightarrow> jsnum" where
  "jsub a b = jadd a (jneg b)"

fun jmul :: "jsnum \<Rightarrow> jsnum \<Rightarrow> jsnum" where
  "jmul (Fin a) (Fin b) = Fin (a * b)"
| "jmul NaN _ = NaN"
| "jmul _ NaN = NaN"
| "jmul PInf (Fin b) = (if b = 0 then NaN else if 0 < b then PInf else NInf)"
| "jmul NInf (Fin b) = (if b = 0 then NaN else if 0 < b then NInf else PInf)"
| "jmul (Fin a) PInf = (if a = 0 then NaN else if 0 < a then PInf else NInf)"
| "jmul (Fin a) NInf = (if a = 0 then NaN else if 0 < a then NInf else PInf)"
| "jmul PInf PInf = PInf"
| "jmul PInf NInf = NInf"
| "jmul NInf PInf = NInf"
| "jmul NInf NInf = PInf"

fun jdiv :: "jsnum \<Rightarrow> jsnum \<Rightarrow> jsnum" where
  "jdiv (Fin a) (Fin b) =
     (if b = 0 then (if a = 0 then NaN else if 0 < a then PInf else NInf)
      else Fin (a / b))"
| "jdiv NaN _ = NaN"
| "jdiv _ NaN = NaN"
| "jdiv (Fin a) PInf = Fin 0"
| "jdiv (Fin a) NInf = Fin 0"
| "jdiv PInf (Fin b) = (if b < 0 then NInf else PInf)"
| "jdiv NInf (Fin b) = (if b < 0 then PInf else NInf)"
| "jdiv PInf PInf = NaN"
| "jdiv PInf NInf = NaN"
| "jdiv NInf PInf = NaN"
| "jdiv NInf NInf = NaN"

fun jsqrt :: "jsnum \<Rightarrow> jsnum" where
  "jsqrt (Fin a) = (if a < 0 then NaN else Fin (sqrt a))"
| "jsqrt PInf = PInf"
| "jsqrt NInf = NaN"
| "jsqrt NaN = NaN"

fun jabs :: "jsnum \<Rightarrow> jsnum" where
  "jabs (Fin a) = Fin \<bar>a\<bar>"
| "jabs PInf = PInf"
| "jabs NInf = PInf"
| "jabs NaN = NaN"

fun jlog :: "jsnum \<Rightarrow> jsnum" where
  "jlog (Fin a) = (if a < 0 then NaN else if a = 0 then NInf else Fin (ln a))"
| "jlog PInf = PInf"
| "jlog NInf = NaN"
| "jlog NaN = NaN"

text \<open>\<^verbatim>\<open>Math.pow(b, n)\<close> for a tick count \<open>n\<close>: \<^verbatim>\<open>Math.pow(b, 0)\<close> is 1 for every \<open>b\<close>.\<close>

primrec jpow :: "jsnum \<Rightarrow> nat \<Rightarrow> jsnum" where
  "jpow b 0 = Fin 1"
| "jpow b (Suc n) = jmul b (jpow b n)"

text \<open>Comparisons: every comparison with NaN is false.\<close>

fun jlt :: "jsnum \<Rightarrow> jsnum \<Rightarrow> bool" where
  "jlt (Fin a) (Fin b) = (a < b)"
| "jlt NaN _ = False"
| "jlt _ NaN = False"
| "jlt _ NInf = False"
| "jlt PInf _ = False"
| "jlt NInf _ = True"
| "jlt _ PInf = True"

definition jgt :: "jsnum \<Rightarrow> jsnum \<Rightarrow> bool" where
  "jgt a b = jlt b a"

fun jle :: "jsnum \<Rightarrow> jsnum \<Rightarrow> bool" where
  "jle (Fin a) (Fin b) = (a \<le> b)"
| "jle NaN _ = False"
| "jle _ NaN = False"
| "jle NInf _ = True"
| "jle _ PInf = True"
| "jle _ NInf = False"
| "jle PInf _ = False"

fun isFinite :: "jsnum \<Rightarrow> bool" where
  "isFinite (Fin a) = True"
| "isFinite _ = False"

section \<open>Physics constants\<close>

definition COULOMB_CONSTANT :: jsnum where "COULOMB_CONSTANT = Fin 5000"
definition HOOKE_CONSTANT :: jsnum where "HOOKE_CONSTANT = Fin 0.05"
definition SPRING_LENGTH :: jsnum where "SPRING_LENGTH = Fin 120"
definition DAMPING :: jsnum where "DAMPING = Fin 0.92"
definition MAX_VELOCITY :: jsnum where "MAX_VELOCITY = Fin 15"
definition TIME_STEP :: jsnum where "TIME_STEP = Fin 0.016"
definition SHOCKWAVE_DECAY :: jsnum where "SHOCKWAVE_DECAY = Fin 0.95"
definition STRESS_THRESHOLD :: jsnum where "STRESS_THRESHOLD = Fin 0.7"

section \<open>Data model\<close>

datatype node_type = SUPPLIER | WAREHOUSE | RETAILER

text \<open>An entry of the node list handed to \<^verbatim>\<open>usePhysicsEngine\<close>.\<close>

record input_node =
  in_id :: nat
  in_type :: node_type
  in_x :: jsnum
  in_y :: jsnum
  in_stress :: jsnum
  in_label :: string

text \<open>A node of \<^verbatim>\<open>physicsState.nodes\<close>: the input fields and the physical ones.\<close>

record node =
  nid :: nat
  ntype :: node_type
  nx :: jsnum
  ny :: jsnum
  nstress :: jsnum
  nlabel :: string
  nvx :: jsnum
  nvy :: jsnum
  nax :: jsnum
  nay :: jsnum
  nmass :: jsnum

text \<open>An edge names its end points by their index in the node array.\<close>

record edge =
  eid :: "nat option"
  source :: nat
  target :: nat

record shockwave =
  sw_x :: jsnum
  sw_y :: jsnum
  sw_force :: jsnum
  sw_age :: nat

record physics_state =
  nodes :: "node list"
  edges :: "edge list"
  shockwaves :: "shockwave list"
  running :: bool

record stats =
  kineticEnergy :: jsnum
  tension :: jsnum
  networkEntropy :: jsnum

text \<open>Reading a field of \<^verbatim>\<open>undefined\<close> throws.\<close>

datatype error = TypeError

section \<open>The physics engine\<close>

text \<open>The initial value of \<^verbatim>\<open>physicsState\<close> in \<^verbatim>\<open>usePhysicsEngine\<close>.\<close>

definition initNode :: "input_node \<Rightarrow> node" where
  "initNode n =
     \<lparr>nid = in_id n, ntype = in_type n, nx = in_x n, ny = in_y n,
      nstress = in_stress n, nlabel = in_label n,
      nvx = Fin 0, nvy = Fin 0, nax = Fin 0, nay = Fin 0,
      nmass = jadd (Fin 1) (jmul (in_stress n) (Fin 0.5))\<rparr>"

definition usePhysicsEngine :: "input_node list \<Rightarrow> edge list \<Rightarrow> physics_state" where
  "usePhysicsEngine ns es =
     \<lparr>nodes = map initNode ns, edges = es, shockwaves = [], running = True\<rparr>"

text \<open>\<^verbatim>\<open>distance(n1, n2)\<close>.\<close>

definition distance :: "node \<Rightarrow> node \<Rightarrow> jsnum" where
  "distance n1 n2 =
     (let dx = jsub (nx n2) (nx n1);
          dy = jsub (ny n2) (ny n1)
      in jsqrt (jadd (jmul dx dx) (jmul dy dy)))"

text \<open>
  One iteration of the loop of \<^verbatim>\<open>calculateCoulombRepulsion\<close>: the pair of summands that
  the node \<open>other\<close> adds to \<open>fx\<close> and \<open>fy\<close>.
\<close>

definition coulombTerm :: "node \<Rightarrow> node \<Rightarrow> jsnum \<times> jsnum" where
  "coulombTerm node other =
     (let dx = jsub (nx node) (nx other);
          dy = jsub (ny node) (ny other);
          dist = jadd (jsqrt (jadd (jmul dx dx) (jmul dy dy))) (Fin 1);
          stressFactor = jadd (Fin 1) (jmul (nstress node) STRESS_THRESHOLD);
          force = jdiv (jmul COULOMB_CONSTANT stressFactor) (jmul dist dist)
      in (jmul (jdiv dx dist) force, jmul (jdiv dy dist) force))"

text \<open>
  \<^verbatim>\<open>calculateCoulombRepulsion(nodeIndex, allNodes)\<close>, for \<open>nodeIndex\<close> an index of
  \<open>allNodes\<close>: \<^verbatim>\<open>simulationStep\<close> calls it with the index that \<^verbatim>\<open>forEach\<close> supplies.
\<close>

definition calculateCoulombRepulsion :: "nat \<Rightarrow> node list \<Rightarrow> jsnum \<times> jsnum" where
  "calculateCoulombRepulsion nodeIndex allNodes =
     foldl (\<lambda>(fx, fy) i.
              if i = nodeIndex then (fx, fy)
              else (let (tx, ty) = coulombTerm (allNodes ! nodeIndex) (allNodes ! i)
                    in (jadd fx tx, jadd fy ty)))
           (Fin 0, Fin 0) [0..<length allNodes]"

text \<open>
  \<^verbatim>\<open>calculateHookeAttraction(edge, allNodes)\<close> returns \<open>(fx, fy, tension)\<close>. An end point
  that is no index of \<open>allNodes\<close> reads as \<^verbatim>\<open>undefined\<close>, and its \<^verbatim>\<open>.x\<close> throws.
\<close>

definition calculateHookeAttraction ::
  "edge \<Rightarrow> node list \<Rightarrow> error + (jsnum \<times> jsnum \<times> jsnum)" where
  "calculateHookeAttraction e allNodes =
     (if source e < length allNodes \<and> target e < length allNodes then
        (let src = allNodes ! source e;
             tgt = allNodes ! target e;
             dx = jsub (nx tgt) (nx src);
             dy = jsub (ny tgt) (ny src);
             dist = jsqrt (jadd (jmul dx dx) (jmul dy dy));
             displacement = jsub dist SPRING_LENGTH;
             force = jmul HOOKE_CONSTANT displacement;
             fx = jmul (jdiv dx dist) force;
             fy = jmul (jdiv dy dist) force
         in Inr (fx, fy, jabs displacement))
      else Inl TypeError)"

text \<open>\<^verbatim>\<open>calculateBoundaryForces(node)\<close>; \<open>width\<close> and \<open>height\<close> come from the component.\<close>

definition calculateBoundaryForces :: "jsnum \<Rightarrow> jsnum \<Rightarrow> node \<Rightarrow> jsnum \<times> jsnum" where
  "calculateBoundaryForces width height node =
     (let margin = Fin 50;
          boundaryK = Fin 0.1;
          fx0 = Fin 0;
          fy0 = Fin 0;
          fx1 = (if jlt (nx node) margin
                 then jadd fx0 (jmul (jsub margin (nx node)) boundaryK) else fx0);
          fx2 = (if jgt (nx node) (jsub width margin)
                 then jadd fx1 (jmul (jsub (jsub width margin) (nx node)) boundaryK) else fx1);
          fy1 = (if jlt (ny node) margin
                 then jadd fy0 (jmul (jsub margin (ny node)) boundaryK) else fy0);
          fy2 = (if jgt (ny node) (jsub height margin)
                 then jadd fy1 (jmul (jsub (jsub height margin) (ny node)) boundaryK) else fy1)
      in (fx2, fy2))"

text \<open>\<^verbatim>\<open>applyShockwaves(node, nodeIndex)\<close> over the active shockwaves.\<close>

definition shockwaveTerm :: "node \<Rightarrow> shockwave \<Rightarrow> jsnum \<times> jsnum" where
  "shockwaveTerm node sw =
     (let dx = jsub (nx node) (sw_x sw);
          dy = jsub (ny node) (sw_y sw);
          dist = jadd (jsqrt (jadd (jmul dx dx) (jmul dy dy))) (Fin 1);
          impact = jdiv (sw_force sw) (jmul dist dist);
          decay = jpow SHOCKWAVE_DECAY (sw_age sw)
      in (jmul (jmul (jdiv dx dist) impact) decay,
          jmul (jmul (jdiv dy dist) impact) decay))"

definition applyShockwaves :: "shockwave list \<Rightarrow> node \<Rightarrow> jsnum \<times> jsnum" where
  "applyShockwaves sws node =
     foldl (\<lambda>(fx, fy) sw. let (tx, ty) = shockwaveTerm node sw in (jadd fx tx, jadd fy ty))
           (Fin 0, Fin 0) sws"

subsection \<open>The phases of \<^verbatim>\<open>simulationStep\<close>\<close>

definition resetAcceleration :: "node \<Rightarrow> node" where
  "resetAcceleration n = n\<lparr>nax := Fin 0, nay := Fin 0\<rparr>"

text \<open>\<^verbatim>\<open>nodes[i].ax += fx; nodes[i].ay += fy\<close> on one node.\<close>

definition addForce :: "jsnum \<times> jsnum \<Rightarrow> node \<Rightarrow> node" where
  "addForce f n = n\<lparr>nax := jadd (nax n) (fst f), nay := jadd (nay n) (snd f)\<rparr>"

definition subForce :: "jsnum \<times> jsnum \<Rightarrow> node \<Rightarrow> node" where
  "subForce f n = n\<lparr>nax := jsub (nax n) (fst f), nay := jsub (nay n) (snd f)\<rparr>"

text \<open>The repulsion loop writes into the array it reads: a fold over the indices.\<close>

definition applyCoulomb :: "node list \<Rightarrow> node list" where
  "applyCoulomb ns =
     foldl (\<lambda>cur i. cur[i := addForce (calculateCoulombRepulsion i cur) (cur ! i)])
           ns [0..<length ns]"

text \<open>
  The spring loop: source and target are updated one after the other in the same array
  (they are the same node for a self-loop), and the tensions are summed.
\<close>

fun applyHooke :: "edge list \<Rightarrow> node list \<Rightarrow> jsnum \<Rightarrow> error + (node list \<times> jsnum)" where
  "applyHooke [] ns totalTension = Inr (ns, totalTension)"
| "applyHooke (e # es) ns totalTension =
     (case calculateHookeAttraction e ns of
        Inl err \<Rightarrow> Inl err
      | Inr (fx, fy, t) \<Rightarrow>
          (let ns1 = ns[source e := addForce (fx, fy) (ns ! source e)];
               ns2 = ns1[target e := subForce (fx, fy) (ns1 ! target e)]
           in applyHooke es ns2 (jadd totalTension t)))"

definition applyBoundary :: "jsnum \<Rightarrow> jsnum \<Rightarrow> node list \<Rightarrow> node list" where
  "applyBoundary width height ns =
     map (\<lambda>n. addForce (calculateBoundaryForces width height n) n) ns"

definition applyShockwaveForces :: "shockwave list \<Rightarrow> node list \<Rightarrow> node list" where
  "applyShockwaveForces sws ns = map (\<lambda>n. addForce (applyShockwaves sws n) n) ns"

text \<open>The body of the integration loop, on one node.\<close>

definition integrateNode :: "node \<Rightarrow> node" where
  "integrateNode n =
     (let vx1 = jadd (nvx n) (jmul (nax n) TIME_STEP);
          vy1 = jadd (nvy n) (jmul (nay n) TIME_STEP);
          vx2 = jmul vx1 DAMPING;
          vy2 = jmul vy1 DAMPING;
          speed = jsqrt (jadd (jmul vx2 vx2) (jmul vy2 vy2));
          vx3 = (if jgt speed MAX_VELOCITY then jmul (jdiv vx2 speed) MAX_VELOCITY else vx2);
          vy3 = (if jgt speed MAX_VELOCITY then jmul (jdiv vy2 speed) MAX_VELOCITY else vy2)
      in n\<lparr>nvx := vx3, nvy := vy3,
           nx := jadd (nx n) (jmul vx3 TIME_STEP),
           ny := jadd (ny n) (jmul vy3 TIME_STEP)\<rparr>)"

definition nodeKineticEnergy :: "node \<Rightarrow> jsnum" where
  "nodeKineticEnergy n =
     jmul (jmul (Fin 0.5) (nmass n)) (jadd (jmul (nvx n) (nvx n)) (jmul (nvy n) (nvy n)))"

definition totalKineticEnergy :: "node list \<Rightarrow> jsnum" where
  "totalKineticEnergy ns = foldl (\<lambda>ke n. jadd ke (nodeKineticEnergy n)) (Fin 0) ns"

text \<open>The shockwave update: every shockwave ages by one, then the dead ones are dropped.\<close>

definition ageShockwave :: "shockwave \<Rightarrow> shockwave" where
  "ageShockwave sw = sw\<lparr>sw_age := sw_age sw + 1\<rparr>"

definition shockwaveAlive :: "shockwave \<Rightarrow> bool" where
  "shockwaveAlive sw = (jgt (sw_force sw) (Fin 0.1) \<and> sw_age sw < 300)"

definition updateShockwaves :: "shockwave list \<Rightarrow> shockwave list" where
  "updateShockwaves sws = filter shockwaveAlive (map ageShockwave sws)"

text \<open>
  The accelerations of a tick: reset, then repulsion, springs, boundary and shockwaves,
  in the order of the source. The result carries the summed tension.
\<close>

definition accumulateForces ::
  "jsnum \<Rightarrow> jsnum \<Rightarrow> physics_state \<Rightarrow> error + (node list \<times> jsnum)" where
  "accumulateForces width height s =
     (case applyHooke (edges s) (applyCoulomb (map resetAcceleration (nodes s))) (Fin 0) of
        Inl err \<Rightarrow> Inl err
      | Inr (ns, totalTension) \<Rightarrow>
          Inr (applyShockwaveForces (shockwaves s) (applyBoundary width height ns),
               totalTension))"

text \<open>
  \<^verbatim>\<open>simulationStep\<close>: the new state and the statistics handed to \<^verbatim>\<open>setStats\<close>. The
  snapshot it returns is not used by its caller and is left out.
\<close>

definition simulationStep ::
  "jsnum \<Rightarrow> jsnum \<Rightarrow> physics_state \<Rightarrow> error + (physics_state \<times> stats)" where
  "simulationStep width height s =
     (case accumulateForces width height s of
        Inl err \<Rightarrow> Inl err
      | Inr (ns, totalTension) \<Rightarrow>
          (let ns' = map integrateNode ns;
               ke = totalKineticEnergy ns';
               avgVelocity = jdiv ke (Fin (real (length ns')));
               entropy = jmul (jlog (jadd avgVelocity (Fin 0.001))) (Fin (- 1))
           in Inr (s\<lparr>nodes := ns', shockwaves := updateShockwaves (shockwaves s)\<rparr>,
                   \<lparr>kineticEnergy = ke, tension = totalTension, networkEntropy = entropy\<rparr>)))"

text \<open>\<^verbatim>\<open>triggerShockwave(x, y, force)\<close> pushes a shockwave of age 0.\<close>

definition triggerShockwave :: "jsnum \<Rightarrow> jsnum \<Rightarrow> jsnum \<Rightarrow> physics_state \<Rightarrow> physics_state" where
  "triggerShockwave x y force s =
     s\<lparr>shockwaves := shockwaves s @ [\<lparr>sw_x = x, sw_y = y, sw_force = force, sw_age = 0\<rparr>]\<rparr>"

section \<open>The component\<close>

text \<open>What \<^verbatim>\<open>getNodes\<close> copies out of a node for the rendering layer.\<close>

record snapshot =
  sn_id :: nat
  sn_x :: jsnum
  sn_y :: jsnum
  sn_stress :: jsnum
  sn_type :: node_type
  sn_label :: string
  sn_vx :: jsnum
  sn_vy :: jsnum

definition getNode :: "node \<Rightarrow> snapshot" where
  "getNode n =
     \<lparr>sn_id = nid n, sn_x = nx n, sn_y = ny n, sn_stress = nstress n, sn_type = ntype n,
      sn_label = nlabel n, sn_vx = nvx n, sn_vy = nvy n\<rparr>"

definition getNodes :: "physics_state \<Rightarrow> snapshot list" where
  "getNodes s = map getNode (nodes s)"

definition mkNode :: "nat \<Rightarrow> node_type \<Rightarrow> real \<Rightarrow> real \<Rightarrow> real \<Rightarrow> string \<Rightarrow> input_node" where
  "mkNode i t x y st l =
     \<lparr>in_id = i, in_type = t, in_x = Fin x, in_y = Fin y, in_stress = Fin st, in_label = l\<rparr>"

definition INITIAL_NODES :: "input_node list" where
  "INITIAL_NODES =
     [mkNode 0 SUPPLIER 400 100 0.2 ''Raw Materials S1'',
      mkNode 1 SUPPLIER 600 100 0.4 ''Raw Materials S2'',
      mkNode 2 SUPPLIER 500 200 0.1 ''Raw Materials S3'',
      mkNode 3 WAREHOUSE 300 350 0.6 ''Central Hub W1'',
      mkNode 4 WAREHOUSE 700 350 0.3 ''Central Hub W2'',
      mkNode 5 WAREHOUSE 500 450 0.8 ''Distribution D1'',
      mkNode 6 RETAILER 150 550 0.2 ''Store R1'',
      mkNode 7 RETAILER 350 550 0.5 ''Store R2'',
      mkNode 8 RETAILER 500 580 0.4 ''Store R3'',
      mkNode 9 RETAILER 650 550 0.3 ''Store R4'',
      mkNode 10 RETAILER 800 520 0.7 ''Store R5'']"

definition mkEdge :: "nat option \<Rightarrow> nat \<Rightarrow> nat \<Rightarrow> edge" where
  "mkEdge i s t = \<lparr>eid = i, source = s, target = t\<rparr>"

definition INITIAL_EDGES :: "edge list" where
  "INITIAL_EDGES =
     [mkEdge None 0 3, mkEdge None 0 2, mkEdge None 1 2, mkEdge None 1 4,
      mkEdge None 2 3, mkEdge None 2 4, mkEdge None 2 5, mkEdge None 3 5,
      mkEdge None 3 6, mkEdge None 3 7, mkEdge None 4 5, mkEdge None 4 9,
      mkEdge None 4 10, mkEdge None 5 7, mkEdge None 5 8, mkEdge None 5 9,
      mkEdge (Some 16) 6 7, mkEdge (Some 17) 7 8, mkEdge (Some 18) 8 9,
      mkEdge (Some 19) 9 10]"

text \<open>
  The state of the component \<^verbatim>\<open>SupplyChainGraph\<close>: the physics state it shares with the
  engine, the statistics last handed to \<^verbatim>\<open>setStats\<close>, and its own React state.
\<close>

record app =
  physics :: physics_state
  published :: stats
  selectedNode :: "snapshot option"
  draggingNode :: "snapshot option"
  dragOffset :: "jsnum \<times> jsnum"

definition initialApp :: app where
  "initialApp =
     \<lparr>physics = usePhysicsEngine INITIAL_NODES INITIAL_EDGES,
      published = \<lparr>kineticEnergy = Fin 0, tension = Fin 0, networkEntropy = Fin 0\<rparr>,
      selectedNode = None, draggingNode = None, dragOffset = (Fin 0, Fin 0)\<rparr>"

text \<open>One callback of the animation loop in which the step is due.\<close>

definition animate :: "jsnum \<Rightarrow> jsnum \<Rightarrow> app \<Rightarrow> error + app" where
  "animate width height a =
     (if \<not> running (physics a) then Inr a
      else (case simulationStep width height (physics a) of
              Inl err \<Rightarrow> Inl err
            | Inr (p, st) \<Rightarrow> Inr (a\<lparr>physics := p, published := st\<rparr>)))"

definition handleNodeMouseDown :: "jsnum \<Rightarrow> jsnum \<Rightarrow> snapshot \<Rightarrow> app \<Rightarrow> app" where
  "handleNodeMouseDown clientX clientY node a =
     a\<lparr>selectedNode := Some node, draggingNode := Some node,
       dragOffset := (jsub clientX (sn_x node), jsub clientY (sn_y node))\<rparr>"

text \<open>\<^verbatim>\<open>Array.prototype.findIndex\<close>; \<open>None\<close> stands for \<open>-1\<close>.\<close>

fun findIndex :: "('a \<Rightarrow> bool) \<Rightarrow> 'a list \<Rightarrow> nat option" where
  "findIndex P [] = None"
| "findIndex P (x # xs) = (if P x then Some 0 else map_option Suc (findIndex P xs))"

definition pinNode :: "jsnum \<Rightarrow> jsnum \<Rightarrow> node \<Rightarrow> node" where
  "pinNode newX newY n = n\<lparr>nx := newX, ny := newY, nvx := Fin 0, nvy := Fin 0\<rparr>"

definition handleMouseMove :: "jsnum \<Rightarrow> jsnum \<Rightarrow> jsnum \<Rightarrow> jsnum \<Rightarrow> app \<Rightarrow> app" where
  "handleMouseMove clientX clientY rectLeft rectTop a =
     (case draggingNode a of
        None \<Rightarrow> a
      | Some d \<Rightarrow>
          (let newX = jsub (jsub clientX rectLeft) (fst (dragOffset a));
               newY = jsub (jsub clientY rectTop) (snd (dragOffset a));
               p = physics a;
               p1 = (case findIndex (\<lambda>n. nid n = sn_id d) (nodes p) of
                       None \<Rightarrow> p
                     | Some i \<Rightarrow> p\<lparr>nodes := (nodes p)[i := pinNode newX newY (nodes p ! i)]\<rparr>)
           in a\<lparr>physics := triggerShockwave newX newY (Fin 500) p1\<rparr>))"

definition handleMouseUp :: "app \<Rightarrow> app" where
  "handleMouseUp a =
     (case draggingNode a of
        None \<Rightarrow> a
      | Some d \<Rightarrow>
          a\<lparr>physics := triggerShockwave (sn_x d) (sn_y d) (Fin 2000) (physics a),
            draggingNode := None\<rparr>)"

text \<open>\<open>onBackground\<close> is the test \<^verbatim>\<open>e.target === e.currentTarget\<close>.\<close>

definition handleBackgroundClick ::
  "bool \<Rightarrow> jsnum \<Rightarrow> jsnum \<Rightarrow> jsnum \<Rightarrow> jsnum \<Rightarrow> app \<Rightarrow> app" where
  "handleBackgroundClick onBackground clientX clientY rectLeft rectTop a =
     (if onBackground then
        a\<lparr>selectedNode := None,
          physics := triggerShockwave (jsub clientX rectLeft) (jsub clientY rectTop)
                       (Fin 800) (physics a)\<rparr>
      else a)"

text \<open>
  The button "Reset Network". \<^verbatim>\<open>INITIAL_NODES[i]\<close> is \<^verbatim>\<open>undefined\<close> for a node beyond
  the initial list, and its \<^verbatim>\<open>.x\<close> throws.
\<close>

definition resetNode :: "node \<Rightarrow> input_node \<Rightarrow> node" where
  "resetNode n init = n\<lparr>nx := in_x init, ny := in_y init, nvx := Fin 0, nvy := Fin 0\<rparr>"

definition resetNetwork :: "physics_state \<Rightarrow> error + physics_state" where
  "resetNetwork s =
     (if length (nodes s) \<le> length INITIAL_NODES then
        Inr (s\<lparr>nodes := map (\<lambda>(n, init). resetNode n init) (zip (nodes s) INITIAL_NODES),
               shockwaves := []\<rparr>)
      else Inl TypeError)"

text \<open>
  The button "Randomize Stress". \<open>rnd i\<close> is what \<^verbatim>\<open>Math.random()\<close> returns for the
  node of index \<open>i\<close>.
\<close>

definition randomizeNode :: "real \<Rightarrow> node \<Rightarrow> node" where
  "randomizeNode r n =
     (let n1 = n\<lparr>nstress := Fin r\<rparr>
      in n1\<lparr>nmass := jadd (Fin 1) (jmul (nstress n1) (Fin 0.5))\<rparr>)"

definition randomizeStress :: "(nat \<Rightarrow> real) \<Rightarrow> physics_state \<Rightarrow> physics_state" where
  "randomizeStress rnd s =
     s\<lparr>nodes := map (\<lambda>(n, i). randomizeNode (rnd i) n) (zip (nodes s) [0..<length (nodes s)])\<rparr>"

text \<open>The events of the component and what each does to its state.\<close>

datatype event =
    Frame jsnum jsnum
  | NodeMouseDown jsnum jsnum snapshot
  | MouseMove jsnum jsnum jsnum jsnum
  | MouseUp
  | BackgroundClick bool jsnum jsnum jsnum jsnum
  | ResetClick
  | RandomizeClick "nat \<Rightarrow> real"

fun fire :: "event \<Rightarrow> app \<Rightarrow> error + app" where
  "fire (Frame w h) a = animate w h a"
| "fire (NodeMouseDown cx cy node) a = Inr (handleNodeMouseDown cx cy node a)"
| "fire (MouseMove cx cy rl rt) a = Inr (handleMouseMove cx cy rl rt a)"
| "fire MouseUp a = Inr (handleMouseUp a)"
| "fire (BackgroundClick b cx cy rl rt) a = Inr (handleBackgroundClick b cx cy rl rt a)"
| "fire ResetClick a =
     (case resetNetwork (physics a) of Inl err \<Rightarrow> Inl err | Inr p \<Rightarrow> Inr (a\<lparr>physics := p\<rparr>))"
| "fire (RandomizeClick rnd) a = Inr (a\<lparr>physics := randomizeStress rnd (physics a)\<rparr>)"

text \<open>\<^verbatim>\<open>Math.random()\<close> returns a number in \<open>[0, 1)\<close>.\<close>

fun admissible :: "event \<Rightarrow> bool" where
  "admissible (RandomizeClick rnd) = (\<forall>i. 0 \<le> rnd i \<and> rnd i < 1)"
| "admissible _ = True"

inductive reachable :: "app \<Rightarrow> bool" where
  initial: "reachable initialApp"
| step: "reachable a \<Longrightarrow> admissible ev \<Longrightarrow> fire ev a = Inr a' \<Longrightarrow> reachable a'"

section \<open>The integrator as the specification words it\<close>

text \<open>Step 1: \<open>velocity += acceleration * dt\<close>, with \<open>dt = 0.016\<close>.\<close>

definition spec_accelerate :: "node \<Rightarrow> node" where
  "spec_accelerate n =
     n\<lparr>nvx := jadd (nvx n) (jmul (nax n) (Fin 0.016)),
       nvy := jadd (nvy n) (jmul (nay n) (Fin 0.016))\<rparr>"

text \<open>Step 2: \<open>velocity *= dampingFactor\<close>, with \<open>dampingFactor = 0.92\<close>.\<close>

definition spec_damp :: "node \<Rightarrow> node" where
  "spec_damp n = n\<lparr>nvx := jmul (nvx n) (Fin 0.92), nvy := jmul (nvy n) (Fin 0.92)\<rparr>"

text \<open>
  Step 3: if \<open>|velocity| > maxVelocity\<close>, the velocity becomes its unit vector times
  \<open>maxVelocity = 15\<close>.
\<close>

definition magnitude :: "jsnum \<Rightarrow> jsnum \<Rightarrow> jsnum" where
  "magnitude vx vy = jsqrt (jadd (jmul vx vx) (jmul vy vy))"

definition spec_clamp :: "node \<Rightarrow> node" where
  "spec_clamp n =
     (if jgt (magnitude (nvx n) (nvy n)) (Fin 15)
      then n\<lparr>nvx := jmul (jdiv (nvx n) (magnitude (nvx n) (nvy n))) (Fin 15),
             nvy := jmul (jdiv (nvy n) (magnitude (nvx n) (nvy n))) (Fin 15)\<rparr>
      else n)"

text \<open>Step 4: \<open>position += velocity * dt\<close>.\<close>

definition spec_move :: "node \<Rightarrow> node" where
  "spec_move n =
     n\<lparr>nx := jadd (nx n) (jmul (nvx n) (Fin 0.016)),
       ny := jadd (ny n) (jmul (nvy n) (Fin 0.016))\<rparr>"

definition spec_integrate :: "node \<Rightarrow> node" where
  "spec_integrate n = spec_move (spec_clamp (spec_damp (spec_accelerate n)))"

section \<open>Auxiliary notions for the statements\<close>

text \<open>Every end point of every edge is an index of an array of \<open>n\<close> nodes.\<close>

definition edgesInRange :: "edge list \<Rightarrow> nat \<Rightarrow> bool" where
  "edgesInRange es n = list_all (\<lambda>e. source e < n \<and> target e < n) es"

text \<open>The fields of a node that are neither position, velocity nor acceleration.\<close>

definition nodeIdentity :: "node \<Rightarrow> nat \<times> node_type \<times> jsnum \<times> jsnum \<times> string" where
  "nodeIdentity n = (nid n, ntype n, nstress n, nmass n, nlabel n)"

text \<open>\<open>n\<close> ticks in a row; the first error ends the run.\<close>

fun steps :: "nat \<Rightarrow> jsnum \<Rightarrow> jsnum \<Rightarrow> physics_state \<Rightarrow> error + physics_state" where
  "steps 0 w h s = Inr s"
| "steps (Suc n) w h s =
     (case simulationStep w h s of Inl err \<Rightarrow> Inl err | Inr (s', st) \<Rightarrow> steps n w h s')"

definition shockwavesAfter ::
  "nat \<Rightarrow> jsnum \<Rightarrow> jsnum \<Rightarrow> physics_state \<Rightarrow> shockwave list option" where
  "shockwavesAfter n w h s =
     (case steps n w h s of Inl err \<Rightarrow> None | Inr s' \<Rightarrow> Some (shockwaves s'))"

definition nodesAfter :: "nat \<Rightarrow> jsnum \<Rightarrow> jsnum \<Rightarrow> physics_state \<Rightarrow> node list option" where
  "nodesAfter n w h s =
     (case steps n w h s of Inl err \<Rightarrow> None | Inr s' \<Rightarrow> Some (nodes s'))"

text \<open>The node of index \<open>i\<close> after \<open>n\<close> ticks.\<close>

definition nodeAfter ::
  "nat \<Rightarrow> nat \<Rightarrow> jsnum \<Rightarrow> jsnum \<Rightarrow> physics_state \<Rightarrow> node option" where
  "nodeAfter i n w h s =
     (case steps n w h s of Inl err \<Rightarrow> None | Inr s' \<Rightarrow> Some (nodes s' ! i))"

text \<open>The engine of the component with one shockwave of the default force 1000.\<close>

definition shocked :: physics_state where
  "shocked =
     triggerShockwave (Fin 500) (Fin 300) (Fin 1000)
       (usePhysicsEngine INITIAL_NODES INITIAL_EDGES)"

text \<open>The length of a velocity, \<open>sqrt(vx\<^sup>2 + vy\<^sup>2)\<close>.\<close>

definition velocityMagnitude :: "node \<Rightarrow> jsnum" where
  "velocityMagnitude n = magnitude (nvx n) (nvy n)"

text \<open>The clamp invariant on one node: its speed is at most \<open>MAX_VELOCITY\<close>.\<close>

definition withinCap :: "node \<Rightarrow> bool" where
  "withinCap n = jle (velocityMagnitude n) MAX_VELOCITY"

text \<open>Which of \<open>x\<close>, \<open>y\<close>, \<open>vx\<close> and \<open>vy\<close> of a node are finite.\<close>

definition finiteKinematics :: "node \<Rightarrow> bool \<times> bool \<times> bool \<times> bool" where
  "finiteKinematics n =
     (isFinite (nx n), isFinite (ny n), isFinite (nvx n), isFinite (nvy n))"

text \<open>
  The magnitude that the specification gives for the repulsion of \<open>node\<close> by \<open>other\<close>:
  \<open>k_repulsion * (1 + stress * stressThreshold) / (distance + 1)\<^sup>2\<close> with
  \<open>k_repulsion = 5000\<close> and \<open>stressThreshold = 0.7\<close>.
\<close>

definition spec_repulsionMagnitude :: "node \<Rightarrow> node \<Rightarrow> jsnum" where
  "spec_repulsionMagnitude node other =
     jdiv (jmul (Fin 5000) (jadd (Fin 1) (jmul (nstress node) (Fin 0.7))))
          (jmul (jadd (distance node other) (Fin 1)) (jadd (distance node other) (Fin 1)))"

text \<open>The Euclidean distance of two points with real coordinates.\<close>

definition planarDistance :: "real \<Rightarrow> real \<Rightarrow> real \<Rightarrow> real \<Rightarrow> real" where
  "planarDistance x1 y1 x2 y2 = sqrt ((x1 - x2) * (x1 - x2) + (y1 - y2) * (y1 - y2))"

text \<open>An engine with two nodes at the same place, joined by an edge.\<close>

definition coincidentPair :: physics_state where
  "coincidentPair =
     usePhysicsEngine
       [mkNode 0 SUPPLIER 100 100 0.2 ''A'', mkNode 1 WAREHOUSE 100 100 0.4 ''B'']
       [mkEdge None 0 1]"

text \<open>
  The invariant of the component's engine: as many nodes as \<^verbatim>\<open>INITIAL_NODES\<close>, the
  initial edges, and for every node a stress in \<open>[0, 1]\<close> with the mass derived from it.
\<close>

definition stressOK :: "nat \<times> node_type \<times> jsnum \<times> jsnum \<times> string \<Rightarrow> bool" where
  "stressOK q =
     (case q of (i, t, st, m, l) \<Rightarrow>
        (case st of Fin r \<Rightarrow> 0 \<le> r \<and> r \<le> 1 | _ \<Rightarrow> False) \<and>
        m = jadd (Fin 1) (jmul st (Fin 0.5)))"

definition componentInv :: "physics_state \<Rightarrow> bool" where
  "componentInv p =
     (length (nodes p) = length INITIAL_NODES \<and> edges p = INITIAL_EDGES \<and>
      list_all stressOK (map nodeIdentity (nodes p)))"

text \<open>
  A drag in the freshly mounted component, with the container at the origin of the
  client area: the mouse goes down on node 0 at (400, 100), moves to (450, 130) and is
  released there.
\<close>

definition pressed :: app where
  "pressed =
     handleNodeMouseDown (Fin 400) (Fin 100) (getNodes (physics initialApp) ! 0) initialApp"

definition dragged :: app where
  "dragged = handleMouseMove (Fin 450) (Fin 130) (Fin 0) (Fin 0) pressed"

definition released :: app where
  "released = handleMouseUp dragged"

text \<open>The position and the velocity of a node.\<close>

definition kinematics :: "node \<Rightarrow> jsnum \<times> jsnum \<times> jsnum \<times> jsnum" where
  "kinematics n = (nx n, ny n, nvx n, nvy n)"

text \<open>The first two suppliers of the component, as the engine holds them at the start.\<close>

definition nodeS1 :: node where
  "nodeS1 = initNode (mkNode 0 SUPPLIER 400 100 0.2 ''Raw Materials S1'')"

definition nodeS2 :: node where
  "nodeS2 = initNode (mkNode 1 SUPPLIER 600 100 0.4 ''Raw Materials S2'')"

text \<open>The component after the drag above and a click on "Randomize Stress".\<close>

definition randomized :: app where
  "randomized = released\<lparr>physics := randomizeStress (\<lambda>i. 1 / 2) (physics released)\<rparr>"

text \<open>
  An edge whose end points are indices of the array and lie at the same finite position.
\<close>

definition coincidentEdge :: "node list \<Rightarrow> edge \<Rightarrow> bool" where
  "coincidentEdge ns e =
     (source e < length ns \<and> target e < length ns \<and>
      isFinite (nx (ns ! source e)) \<and> isFinite (ny (ns ! source e)) \<and>
      nx (ns ! target e) = nx (ns ! source e) \<and> ny (ns ! target e) = ny (ns ! source e))"

definition accNaN :: "node \<Rightarrow> bool" where
  "accNaN n = (nax n = NaN \<and> nay n = NaN)"

text \<open>
  The drag of node 0 exactly onto node 3, at (300, 350); the first of the initial edges
  joins the two.
\<close>

definition stacked :: app where
  "stacked = handleMouseMove (Fin 300) (Fin 350) (Fin 0) (Fin 0) pressed"

section \<open>Facts about lists and numbers\<close>

lemma map_update_same:
  assumes "g y = g (xs ! i)"
  shows "map g (xs[i := y]) = map g xs"
proof (cases "i < length xs")
  case True
  have "map g (xs[i := y]) = (map g xs)[i := map g xs ! i]"
    using True assms by (simp add: map_update)
  then show ?thesis by simp
next
  case False
  then show ?thesis by (simp add: list_update_beyond)
qed

lemma foldl_update_frame:
  "(\<And>cur i. g (F cur i) = g (cur ! i)) \<Longrightarrow>
   map g (foldl (\<lambda>cur i. cur[i := F cur i]) ns is) = map g ns"
  by (induction "is" arbitrary: ns) (simp_all add: map_update_same)

lemma jpow_Fin: "jpow (Fin a) n = Fin (a ^ n)"
  by (induction n) simp_all

section \<open>The force phases change accelerations only\<close>

lemma resetAcceleration_addForce [simp]:
  "resetAcceleration (addForce f n) = resetAcceleration n"
  by (simp add: resetAcceleration_def addForce_def)

lemma resetAcceleration_subForce [simp]:
  "resetAcceleration (subForce f n) = resetAcceleration n"
  by (simp add: resetAcceleration_def subForce_def)

lemma resetAcceleration_idem [simp]:
  "resetAcceleration (resetAcceleration n) = resetAcceleration n"
  by (simp add: resetAcceleration_def)

lemma applyCoulomb_frame:
  "map resetAcceleration (applyCoulomb ns) = map resetAcceleration ns"
  unfolding applyCoulomb_def by (rule foldl_update_frame) simp

lemma applyCoulomb_length: "length (applyCoulomb ns) = length ns"
  using applyCoulomb_frame [of ns] by (rule map_eq_imp_length_eq)

lemma applyHooke_frame:
  "applyHooke es ns t = Inr (ns', t') \<Longrightarrow>
   map resetAcceleration ns' = map resetAcceleration ns"
proof (induction es arbitrary: ns t)
  case Nil
  then show ?case by simp
next
  case (Cons e es)
  from Cons.prems obtain fx fy tn where
    h: "calculateHookeAttraction e ns = Inr (fx, fy, tn)"
    by (auto split: sum.splits)
  let ?ns1 = "ns[source e := addForce (fx, fy) (ns ! source e)]"
  let ?ns2 = "?ns1[target e := subForce (fx, fy) (?ns1 ! target e)]"
  from Cons.prems h have "applyHooke es ?ns2 (jadd t tn) = Inr (ns', t')"
    by (simp add: Let_def)
  then have "map resetAcceleration ns' = map resetAcceleration ?ns2"
    by (rule Cons.IH)
  also have "\<dots> = map resetAcceleration ?ns1"
    by (rule map_update_same) simp
  also have "\<dots> = map resetAcceleration ns"
    by (rule map_update_same) simp
  finally show ?case .
qed

lemma applyBoundary_frame:
  "map resetAcceleration (applyBoundary w h ns) = map resetAcceleration ns"
  by (simp add: applyBoundary_def)

lemma applyShockwaveForces_frame:
  "map resetAcceleration (applyShockwaveForces sws ns) = map resetAcceleration ns"
  by (simp add: applyShockwaveForces_def)

lemma accumulateForces_frame:
  assumes "accumulateForces w h s = Inr (ns, t)"
  shows "map resetAcceleration ns = map resetAcceleration (nodes s)"
proof -
  from assms obtain ns0 where
    hk: "applyHooke (edges s) (applyCoulomb (map resetAcceleration (nodes s))) (Fin 0)
           = Inr (ns0, t)"
    and ns: "ns = applyShockwaveForces (shockwaves s) (applyBoundary w h ns0)"
    by (auto simp: accumulateForces_def split: sum.splits)
  have "map resetAcceleration ns = map resetAcceleration ns0"
    by (simp add: ns applyShockwaveForces_frame applyBoundary_frame)
  also have "\<dots> = map resetAcceleration (applyCoulomb (map resetAcceleration (nodes s)))"
    using hk by (rule applyHooke_frame)
  also have "\<dots> = map resetAcceleration (nodes s)"
    by (simp add: applyCoulomb_frame)
  finally show ?thesis .
qed

lemma accumulateForces_length:
  "accumulateForces w h s = Inr (ns, t) \<Longrightarrow> length ns = length (nodes s)"
  by (drule accumulateForces_frame) (rule map_eq_imp_length_eq)

section \<open>The step returns when every edge is in range\<close>

lemma calculateHookeAttraction_succeeds:
  "source e < length ns \<Longrightarrow> target e < length ns \<Longrightarrow>
   \<exists>fx fy tn. calculateHookeAttraction e ns = Inr (fx, fy, tn)"
  by (simp add: calculateHookeAttraction_def Let_def)

lemma applyHooke_succeeds:
  "edgesInRange es (length ns) \<Longrightarrow> \<exists>r. applyHooke es ns t = Inr r"
proof (induction es arbitrary: ns t)
  case Nil
  then show ?case by simp
next
  case (Cons e es)
  then have e: "source e < length ns" "target e < length ns"
    and es: "edgesInRange es (length ns)"
    by (simp_all add: edgesInRange_def)
  from e obtain fx fy tn where h: "calculateHookeAttraction e ns = Inr (fx, fy, tn)"
    using calculateHookeAttraction_succeeds by blast
  let ?ns1 = "ns[source e := addForce (fx, fy) (ns ! source e)]"
  let ?ns2 = "?ns1[target e := subForce (fx, fy) (?ns1 ! target e)]"
  have "edgesInRange es (length ?ns2)" using es by simp
  then obtain r where "applyHooke es ?ns2 (jadd t tn) = Inr r"
    using Cons.IH by blast
  with h show ?case by (simp add: Let_def)
qed

lemma accumulateForces_succeeds:
  assumes "edgesInRange (edges s) (length (nodes s))"
  shows "\<exists>r. accumulateForces w h s = Inr r"
proof -
  have "edgesInRange (edges s) (length (applyCoulomb (map resetAcceleration (nodes s))))"
    using assms by (simp add: applyCoulomb_length)
  then obtain r where
    "applyHooke (edges s) (applyCoulomb (map resetAcceleration (nodes s))) (Fin 0) = Inr r"
    using applyHooke_succeeds by blast
  then show ?thesis
    by (cases r) (simp add: accumulateForces_def)
qed

lemma simulationStep_succeeds:
  assumes "edgesInRange (edges s) (length (nodes s))"
  shows "\<exists>s' st. simulationStep w h s = Inr (s', st)"
proof -
  from accumulateForces_succeeds [OF assms] obtain ns t where
    "accumulateForces w h s = Inr (ns, t)" by (metis surj_pair)
  then show ?thesis by (simp add: simulationStep_def Let_def)
qed

section \<open>What a step leaves alone\<close>

lemma simulationStep_result:
  assumes "simulationStep w h s = Inr (s', st)"
  shows "\<exists>ns t. accumulateForces w h s = Inr (ns, t) \<and>
           s' = s\<lparr>nodes := map integrateNode ns,
                  shockwaves := updateShockwaves (shockwaves s)\<rparr>"
  using assms by (auto simp: simulationStep_def Let_def split: sum.splits)

lemma simulationStep_shockwaves:
  "simulationStep w h s = Inr (s', st) \<Longrightarrow> shockwaves s' = updateShockwaves (shockwaves s)"
  by (auto dest: simulationStep_result)

lemma simulationStep_edges:
  "simulationStep w h s = Inr (s', st) \<Longrightarrow> edges s' = edges s"
  by (auto dest: simulationStep_result)

lemma simulationStep_running:
  "simulationStep w h s = Inr (s', st) \<Longrightarrow> running s' = running s"
  by (auto dest: simulationStep_result)

lemma nodeIdentity_resetAcceleration [simp]:
  "nodeIdentity (resetAcceleration n) = nodeIdentity n"
  by (simp add: nodeIdentity_def resetAcceleration_def)

lemma nodeIdentity_integrateNode [simp]:
  "nodeIdentity (integrateNode n) = nodeIdentity n"
  by (simp add: nodeIdentity_def integrateNode_def Let_def)

lemma map_nodeIdentity_reset:
  "map nodeIdentity xs = map nodeIdentity (map resetAcceleration xs)"
  by simp

lemma simulationStep_nodeIdentity:
  assumes "simulationStep w h s = Inr (s', st)"
  shows "map nodeIdentity (nodes s') = map nodeIdentity (nodes s)"
proof -
  from simulationStep_result [OF assms] obtain ns t where
    acc: "accumulateForces w h s = Inr (ns, t)" and
    s': "nodes s' = map integrateNode ns" by auto
  have "map nodeIdentity (nodes s') = map nodeIdentity ns"
    by (simp add: s')
  also have "\<dots> = map nodeIdentity (map resetAcceleration ns)"
    by (rule map_nodeIdentity_reset)
  also have "\<dots> = map nodeIdentity (map resetAcceleration (nodes s))"
    by (simp only: accumulateForces_frame [OF acc])
  also have "\<dots> = map nodeIdentity (nodes s)"
    by (rule map_nodeIdentity_reset [symmetric])
  finally show ?thesis .
qed

lemma simulationStep_length:
  "simulationStep w h s = Inr (s', st) \<Longrightarrow> length (nodes s') = length (nodes s)"
  by (drule simulationStep_nodeIdentity) (rule map_eq_imp_length_eq)

lemma map_via_nodeIdentity:
  assumes "map nodeIdentity xs = map nodeIdentity ys"
  shows "map nid xs = map nid ys" and "map ntype xs = map ntype ys"
    and "map nstress xs = map nstress ys" and "map nmass xs = map nmass ys"
    and "map nlabel xs = map nlabel ys"
proof -
  have p: "map (g \<circ> nodeIdentity) xs = map (g \<circ> nodeIdentity) ys" for g :: "_ \<Rightarrow> 'z"
    using assms by (metis map_map)
  show "map nid xs = map nid ys"
    using p [of fst] by (simp add: comp_def nodeIdentity_def)
  show "map ntype xs = map ntype ys"
    using p [of "\<lambda>t. fst (snd t)"] by (simp add: comp_def nodeIdentity_def)
  show "map nstress xs = map nstress ys"
    using p [of "\<lambda>t. fst (snd (snd t))"] by (simp add: comp_def nodeIdentity_def)
  show "map nmass xs = map nmass ys"
    using p [of "\<lambda>t. fst (snd (snd (snd t)))"] by (simp add: comp_def nodeIdentity_def)
  show "map nlabel xs = map nlabel ys"
    using p [of "\<lambda>t. snd (snd (snd (snd t)))"] by (simp add: comp_def nodeIdentity_def)
qed

lemma component_edgesInRange:
  "edgesInRange INITIAL_EDGES (length INITIAL_NODES)"
  by (simp add: INITIAL_NODES_def INITIAL_EDGES_def edgesInRange_def mkEdge_def)

section \<open>Many ticks\<close>

lemma steps_succeeds:
  "edgesInRange (edges s) (length (nodes s)) \<Longrightarrow>
   \<exists>s'. steps n w h s = Inr s' \<and> shockwaves s' = (updateShockwaves ^^ n) (shockwaves s)"
proof (induction n arbitrary: s)
  case 0
  then show ?case by simp
next
  case (Suc n)
  from simulationStep_succeeds [OF Suc.prems] obtain s1 st where
    s1: "simulationStep w h s = Inr (s1, st)" by blast
  have "edgesInRange (edges s1) (length (nodes s1))"
    using Suc.prems by (simp add: simulationStep_edges [OF s1] simulationStep_length [OF s1])
  from Suc.IH [OF this] obtain s' where
    "steps n w h s1 = Inr s'" "shockwaves s' = (updateShockwaves ^^ n) (shockwaves s1)"
    by blast
  then show ?case
    using s1 by (simp add: simulationStep_shockwaves [OF s1] funpow_swap1)
qed

lemma shockwavesAfter_funpow:
  assumes "edgesInRange (edges s) (length (nodes s))"
  shows "shockwavesAfter n w h s = Some ((updateShockwaves ^^ n) (shockwaves s))"
proof -
  from steps_succeeds [OF assms] obtain s' where
    "steps n w h s = Inr s'" "shockwaves s' = (updateShockwaves ^^ n) (shockwaves s)"
    by blast
  then show ?thesis by (simp add: shockwavesAfter_def)
qed

lemma updateShockwaves_young:
  "jgt (sw_force sw) (Fin 0.1) \<Longrightarrow> sw_age sw + n < 300 \<Longrightarrow>
   (updateShockwaves ^^ n) [sw] = [sw\<lparr>sw_age := sw_age sw + n\<rparr>]"
  by (induction n)
     (simp_all add: updateShockwaves_def ageShockwave_def shockwaveAlive_def)

lemma updateShockwaves_old:
  "sw_age sw + 1 = 300 \<Longrightarrow> updateShockwaves [sw] = []"
  by (simp add: updateShockwaves_def ageShockwave_def shockwaveAlive_def)

lemma shocked_edgesInRange:
  "edgesInRange (edges shocked) (length (nodes shocked))"
  using component_edgesInRange
  by (simp add: shocked_def triggerShockwave_def usePhysicsEngine_def)

lemma shocked_shockwaves:
  "shockwaves shocked = [\<lparr>sw_x = Fin 500, sw_y = Fin 300, sw_force = Fin 1000, sw_age = 0\<rparr>]"
  by (simp add: shocked_def triggerShockwave_def usePhysicsEngine_def)

lemma shocked_funpow:
  "n < 300 \<Longrightarrow>
   (updateShockwaves ^^ n) (shockwaves shocked) =
     [\<lparr>sw_x = Fin 500, sw_y = Fin 300, sw_force = Fin 1000, sw_age = n\<rparr>]"
  using updateShockwaves_young
    [of "\<lparr>sw_x = Fin 500, sw_y = Fin 300, sw_force = Fin 1000, sw_age = 0\<rparr>" n]
  by (simp add: shocked_shockwaves jgt_def)

lemma shocked_funpow_300:
  "(updateShockwaves ^^ 300) (shockwaves shocked) = []"
proof -
  have "(updateShockwaves ^^ Suc 299) (shockwaves shocked) =
          updateShockwaves [\<lparr>sw_x = Fin 500, sw_y = Fin 300, sw_force = Fin 1000, sw_age = 299\<rparr>]"
    by (simp only: funpow.simps o_apply shocked_funpow [of 299, simplified])
  then show ?thesis by (simp add: updateShockwaves_old)
qed

section \<open>Arithmetic of the number model\<close>

lemmas constants_defs =
  COULOMB_CONSTANT_def HOOKE_CONSTANT_def SPRING_LENGTH_def DAMPING_def
  MAX_VELOCITY_def TIME_STEP_def SHOCKWAVE_DECAY_def STRESS_THRESHOLD_def

lemma magnitude_Fin: "magnitude (Fin a) (Fin b) = Fin (sqrt (a * a + b * b))"
  by (simp add: magnitude_def not_less)

lemma nonfinite_jadd_left: "\<not> isFinite a \<Longrightarrow> \<not> isFinite (jadd a b)"
  by (cases a; cases b) simp_all

lemma nonfinite_jadd_right: "\<not> isFinite b \<Longrightarrow> \<not> isFinite (jadd a b)"
  by (cases a; cases b) simp_all

lemma nonfinite_jmul_Fin: "\<not> isFinite a \<Longrightarrow> c \<noteq> 0 \<Longrightarrow> \<not> isFinite (jmul a (Fin c))"
  by (cases a) simp_all

lemma nonfinite_clamp_left:
  "\<not> isFinite v \<Longrightarrow>
   \<not> isFinite (if jgt (jsqrt (jadd (jmul v v) q)) (Fin 15)
                then jmul (jdiv v (jsqrt (jadd (jmul v v) q))) (Fin 15) else v)"
  by (cases v; cases q) (simp_all add: jgt_def)

lemma nonfinite_clamp_right:
  "\<not> isFinite v \<Longrightarrow>
   \<not> isFinite (if jgt (jsqrt (jadd p (jmul v v))) (Fin 15)
                then jmul (jdiv v (jsqrt (jadd p (jmul v v)))) (Fin 15) else v)"
  by (cases v; cases p) (simp_all add: jgt_def)

section \<open>The repulsion of one node by another\<close>

lemma coulombTerm_finite:
  assumes "nx node = Fin x1" "ny node = Fin y1" "nx other = Fin x2" "ny other = Fin y2"
    and "nstress node = Fin st" and "0 \<le> st"
  defines "d \<equiv> planarDistance x1 y1 x2 y2"
  defines "M \<equiv> 5000 * (1 + st * 0.7) / ((d + 1) * (d + 1))"
  shows "distance node other = Fin d"
    and "spec_repulsionMagnitude node other = Fin M"
    and "coulombTerm node other = (Fin ((x1 - x2) / (d + 1) * M), Fin ((y1 - y2) / (d + 1) * M))"
    and "magnitude (fst (coulombTerm node other)) (snd (coulombTerm node other))
           = Fin (M * (d / (d + 1)))"
    and "0 < M" and "0 \<le> d"
proof -
  show d0: "0 \<le> d" by (simp add: d_def planarDistance_def)
  have nn: "\<not> (x1 - x2) * (x1 - x2) + (y1 - y2) * (y1 - y2) < 0"
    by (simp add: not_less)
  have sym: "(x2 - x1) * (x2 - x1) + (y2 - y1) * (y2 - y1)
               = (x1 - x2) * (x1 - x2) + (y1 - y2) * (y1 - y2)"
    by (simp add: algebra_simps)
  have nn': "\<not> (x2 - x1) * (x2 - x1) + (y2 - y1) * (y2 - y1) < 0"
    by (simp add: not_less)
  show dist: "distance node other = Fin d"
    using assms(1-4) nn'
    by (simp add: distance_def jsub_def Let_def d_def planarDistance_def sym)
  have d1: "d + 1 \<noteq> 0" "(d + 1) * (d + 1) \<noteq> 0" using d0 by auto
  show sm: "spec_repulsionMagnitude node other = Fin M"
    using assms(5) d1 by (simp add: spec_repulsionMagnitude_def dist M_def)
  show M0: "0 < M" using d0 assms(6) unfolding M_def
    by (intro divide_pos_pos mult_pos_pos) auto
  have "coulombTerm node other = (Fin ((x1 - x2) / (d + 1) * M), Fin ((y1 - y2) / (d + 1) * M))"
    using assms(1-5) nn d1
    by (simp add: coulombTerm_def jsub_def Let_def constants_defs
        d_def planarDistance_def [symmetric] M_def)
  then show ct: "coulombTerm node other
      = (Fin ((x1 - x2) / (d + 1) * M), Fin ((y1 - y2) / (d + 1) * M))" .
  have sq: "(x1 - x2) / (d + 1) * M * ((x1 - x2) / (d + 1) * M) +
        (y1 - y2) / (d + 1) * M * ((y1 - y2) / (d + 1) * M)
        = (M * (d / (d + 1))) * (M * (d / (d + 1)))"
  proof -
    define k where "k = M / (d + 1)"
    have dd: "d * d = (x1 - x2) * (x1 - x2) + (y1 - y2) * (y1 - y2)"
      unfolding d_def planarDistance_def by (simp add: not_less)
    have e1: "(x1 - x2) / (d + 1) * M = (x1 - x2) * k"
      and e2: "(y1 - y2) / (d + 1) * M = (y1 - y2) * k"
      and e3: "M * (d / (d + 1)) = k * d"
      by (simp_all add: k_def)
    have "(x1 - x2) * k * ((x1 - x2) * k) + (y1 - y2) * k * ((y1 - y2) * k)
            = k * k * ((x1 - x2) * (x1 - x2) + (y1 - y2) * (y1 - y2))"
      by (simp add: algebra_simps)
    also have "\<dots> = k * k * (d * d)"
      by (simp only: dd)
    also have "\<dots> = k * d * (k * d)"
      by (simp add: algebra_simps)
    finally show ?thesis by (simp only: e1 e2 e3)
  qed
  have pos: "0 \<le> M * (d / (d + 1))" using M0 d0 by simp
  have "magnitude (fst (coulombTerm node other)) (snd (coulombTerm node other))
          = Fin (sqrt ((x1 - x2) / (d + 1) * M * ((x1 - x2) / (d + 1) * M) +
                       (y1 - y2) / (d + 1) * M * ((y1 - y2) / (d + 1) * M)))"
    by (simp only: ct fst_conv snd_conv magnitude_Fin)
  also have "\<dots> = Fin (sqrt ((M * (d / (d + 1))) * (M * (d / (d + 1)))))"
    by (simp only: sq)
  also have "\<dots> = Fin (M * (d / (d + 1)))"
    using pos by (simp only: real_sqrt_abs2 abs_of_nonneg)
  finally show "magnitude (fst (coulombTerm node other)) (snd (coulombTerm node other))
           = Fin (M * (d / (d + 1)))" .
qed

lemma calculateCoulombRepulsion_pair:
  "calculateCoulombRepulsion 0 [node, other] =
     (jadd (Fin 0) (fst (coulombTerm node other)), jadd (Fin 0) (snd (coulombTerm node other)))"
  by (simp add: calculateCoulombRepulsion_def split_beta)

section \<open>The integrator\<close>

lemma integrateNode_spec: "integrateNode n = spec_integrate n"
  by (simp add: integrateNode_def spec_integrate_def spec_move_def spec_clamp_def
      spec_damp_def spec_accelerate_def magnitude_def constants_defs Let_def)

lemma rescale_magnitude:
  fixes a b :: real
  assumes "0 < sqrt (a * a + b * b)"
  shows "sqrt (a / sqrt (a * a + b * b) * c * (a / sqrt (a * a + b * b) * c) +
               b / sqrt (a * a + b * b) * c * (b / sqrt (a * a + b * b) * c)) = \<bar>c\<bar>"
proof -
  define s where "s = sqrt (a * a + b * b)"
  define k where "k = c / s"
  have ss: "s * s = a * a + b * b" unfolding s_def by (simp add: not_less)
  have "0 < s" using assms unfolding s_def .
  then have s0: "s \<noteq> 0" by simp
  have e1: "a / s * c = a * k" and e2: "b / s * c = b * k" by (simp_all add: k_def)
  have "a * k * (a * k) + b * k * (b * k) = k * k * (a * a + b * b)"
    by (simp add: algebra_simps)
  also have "\<dots> = k * k * (s * s)" by (simp only: ss)
  also have "\<dots> = c * c" using s0 by (simp add: k_def)
  finally have "sqrt (a / s * c * (a / s * c) + b / s * c * (b / s * c)) = sqrt (c * c)"
    by (simp only: e1 e2)
  then show ?thesis by (simp only: real_sqrt_abs2 s_def)
qed

text \<open>
  On a finite velocity the clamp of the specification does what its words say: a
  velocity above the cap becomes one of magnitude 15, a positive multiple of the old
  one, and no velocity leaves it longer than 15.
\<close>

lemma spec_clamp_rescales:
  assumes "nvx n = Fin a" "nvy n = Fin b" "15 < sqrt (a * a + b * b)"
  shows "spec_clamp n = n\<lparr>nvx := Fin (a * (15 / sqrt (a * a + b * b))),
                            nvy := Fin (b * (15 / sqrt (a * a + b * b)))\<rparr>"
    and "velocityMagnitude (spec_clamp n) = Fin 15"
proof -
  from assms(3) have pos: "0 < sqrt (a * a + b * b)" by linarith
  then have nz: "sqrt (a * a + b * b) \<noteq> 0" by linarith
  have c: "spec_clamp n = n\<lparr>nvx := Fin (a / sqrt (a * a + b * b) * 15),
                            nvy := Fin (b / sqrt (a * a + b * b) * 15)\<rparr>"
    using assms(3) nz by (simp add: spec_clamp_def assms(1,2) magnitude_Fin jgt_def)
  then show "spec_clamp n = n\<lparr>nvx := Fin (a * (15 / sqrt (a * a + b * b))),
                            nvy := Fin (b * (15 / sqrt (a * a + b * b)))\<rparr>"
    by simp
  from c have "velocityMagnitude (spec_clamp n) =
      Fin (sqrt (a / sqrt (a * a + b * b) * 15 * (a / sqrt (a * a + b * b) * 15) +
                 b / sqrt (a * a + b * b) * 15 * (b / sqrt (a * a + b * b) * 15)))"
    by (simp add: velocityMagnitude_def magnitude_Fin)
  also have "\<dots> = Fin 15"
    by (simp only: rescale_magnitude [OF pos]) simp
  finally show "velocityMagnitude (spec_clamp n) = Fin 15" .
qed

lemma spec_clamp_bound:
  assumes "nvx n = Fin a" "nvy n = Fin b"
  shows "jle (velocityMagnitude (spec_clamp n)) (Fin 15)"
proof (cases "15 < sqrt (a * a + b * b)")
  case True
  then show ?thesis by (simp add: spec_clamp_rescales(2) [OF assms])
next
  case False
  then have "spec_clamp n = n"
    by (simp add: spec_clamp_def assms magnitude_Fin jgt_def)
  then show ?thesis using False by (simp add: assms velocityMagnitude_def magnitude_Fin)
qed

text \<open>With finite velocity and acceleration, the integration leaves a speed of at most 15.\<close>

lemma integrateNode_speed_bound:
  assumes "nvx n = Fin a" "nvy n = Fin b" "nax n = Fin c" "nay n = Fin d"
  shows "jle (velocityMagnitude (integrateNode n)) MAX_VELOCITY"
proof -
  let ?m = "spec_damp (spec_accelerate n)"
  have "nvx ?m = Fin ((a + c * 0.016) * 0.92)" "nvy ?m = Fin ((b + d * 0.016) * 0.92)"
    by (simp_all add: spec_damp_def spec_accelerate_def assms)
  then have "jle (velocityMagnitude (spec_clamp ?m)) (Fin 15)"
    by (rule spec_clamp_bound)
  moreover have "velocityMagnitude (integrateNode n) = velocityMagnitude (spec_clamp ?m)"
    by (simp add: integrateNode_spec spec_integrate_def spec_move_def velocityMagnitude_def)
  ultimately show ?thesis by (simp add: MAX_VELOCITY_def)
qed

section \<open>Non-finite values stay\<close>

lemma integrateNode_nonfinite_x:
  "\<not> isFinite (nx n) \<Longrightarrow> \<not> isFinite (nx (integrateNode n))"
  by (simp add: integrateNode_def Let_def nonfinite_jadd_left)

lemma integrateNode_nonfinite_y:
  "\<not> isFinite (ny n) \<Longrightarrow> \<not> isFinite (ny (integrateNode n))"
  by (simp add: integrateNode_def Let_def nonfinite_jadd_left)

lemma integrateNode_nonfinite_vx:
  assumes "\<not> isFinite (nvx n)"
  shows "\<not> isFinite (nvx (integrateNode n))" and "\<not> isFinite (nx (integrateNode n))"
proof -
  define vx2 where "vx2 = jmul (jadd (nvx n) (jmul (nax n) (Fin 0.016))) (Fin 0.92)"
  define vy2 where "vy2 = jmul (jadd (nvy n) (jmul (nay n) (Fin 0.016))) (Fin 0.92)"
  have v: "\<not> isFinite vx2"
    using assms by (simp add: vx2_def nonfinite_jadd_left nonfinite_jmul_Fin)
  have e: "nvx (integrateNode n) =
      (if jgt (jsqrt (jadd (jmul vx2 vx2) (jmul vy2 vy2))) (Fin 15)
       then jmul (jdiv vx2 (jsqrt (jadd (jmul vx2 vx2) (jmul vy2 vy2)))) (Fin 15) else vx2)"
    by (simp add: integrateNode_def Let_def constants_defs vx2_def vy2_def)
  show 1: "\<not> isFinite (nvx (integrateNode n))"
    unfolding e by (rule nonfinite_clamp_left [OF v])
  have "nx (integrateNode n) = jadd (nx n) (jmul (nvx (integrateNode n)) (Fin 0.016))"
    by (simp add: integrateNode_def Let_def constants_defs)
  then show "\<not> isFinite (nx (integrateNode n))"
    using 1 by (simp add: nonfinite_jadd_right nonfinite_jmul_Fin)
qed

lemma integrateNode_nonfinite_vy:
  assumes "\<not> isFinite (nvy n)"
  shows "\<not> isFinite (nvy (integrateNode n))" and "\<not> isFinite (ny (integrateNode n))"
proof -
  define vx2 where "vx2 = jmul (jadd (nvx n) (jmul (nax n) (Fin 0.016))) (Fin 0.92)"
  define vy2 where "vy2 = jmul (jadd (nvy n) (jmul (nay n) (Fin 0.016))) (Fin 0.92)"
  have v: "\<not> isFinite vy2"
    using assms by (simp add: vy2_def nonfinite_jadd_left nonfinite_jmul_Fin)
  have e: "nvy (integrateNode n) =
      (if jgt (jsqrt (jadd (jmul vx2 vx2) (jmul vy2 vy2))) (Fin 15)
       then jmul (jdiv vy2 (jsqrt (jadd (jmul vx2 vx2) (jmul vy2 vy2)))) (Fin 15) else vy2)"
    by (simp add: integrateNode_def Let_def constants_defs vx2_def vy2_def)
  show 1: "\<not> isFinite (nvy (integrateNode n))"
    unfolding e by (rule nonfinite_clamp_right [OF v])
  have "ny (integrateNode n) = jadd (ny n) (jmul (nvy (integrateNode n)) (Fin 0.016))"
    by (simp add: integrateNode_def Let_def constants_defs)
  then show "\<not> isFinite (ny (integrateNode n))"
    using 1 by (simp add: nonfinite_jadd_right nonfinite_jmul_Fin)
qed

lemma kinematics_resetAcceleration [simp]:
  "kinematics (resetAcceleration n) = kinematics n"
  by (simp add: kinematics_def resetAcceleration_def)

lemma accumulateForces_kinematics:
  assumes "accumulateForces w h s = Inr (ns, t)"
  shows "map kinematics ns = map kinematics (nodes s)"
proof -
  have "map kinematics ns = map kinematics (map resetAcceleration ns)" by simp
  also have "\<dots> = map kinematics (map resetAcceleration (nodes s))"
    by (simp only: accumulateForces_frame [OF assms])
  also have "\<dots> = map kinematics (nodes s)" by simp
  finally show ?thesis .
qed

lemma accumulateForces_nodeIdentity:
  assumes "accumulateForces w h s = Inr (ns, t)"
  shows "map nodeIdentity ns = map nodeIdentity (nodes s)"
proof -
  have "map nodeIdentity ns = map nodeIdentity (map resetAcceleration ns)" by simp
  also have "\<dots> = map nodeIdentity (map resetAcceleration (nodes s))"
    by (simp only: accumulateForces_frame [OF assms])
  also have "\<dots> = map nodeIdentity (nodes s)" by simp
  finally show ?thesis .
qed

lemma simulationStep_nth:
  assumes "simulationStep w h s = Inr (s', st)" and "i < length (nodes s)"
  shows "\<exists>m. nodes s' ! i = integrateNode m \<and> kinematics m = kinematics (nodes s ! i)"
proof -
  from simulationStep_result [OF assms(1)] obtain ns t where
    acc: "accumulateForces w h s = Inr (ns, t)" and
    s': "nodes s' = map integrateNode ns" by auto
  have len: "length ns = length (nodes s)" by (rule accumulateForces_length [OF acc])
  have "map kinematics ns ! i = map kinematics (nodes s) ! i"
    by (simp only: accumulateForces_kinematics [OF acc])
  then have "kinematics (ns ! i) = kinematics (nodes s ! i)"
    using assms(2) len by simp
  moreover have "nodes s' ! i = integrateNode (ns ! i)"
    using assms(2) len by (simp add: s')
  ultimately show ?thesis by blast
qed

section \<open>The invariant of the component\<close>

lemma usePhysicsEngine_mass:
  "list_all (\<lambda>n. nmass n = jadd (Fin 1) (jmul (nstress n) (Fin 0.5)))
     (nodes (usePhysicsEngine ns es))"
  by (simp add: usePhysicsEngine_def list_all_iff initNode_def)

lemma componentInv_initial: "componentInv (usePhysicsEngine INITIAL_NODES INITIAL_EDGES)"
  by (simp add: componentInv_def usePhysicsEngine_def INITIAL_NODES_def initNode_def
      mkNode_def nodeIdentity_def stressOK_def)

lemma componentInv_cong:
  "componentInv p \<Longrightarrow> map nodeIdentity (nodes p') = map nodeIdentity (nodes p) \<Longrightarrow>
   edges p' = edges p \<Longrightarrow> componentInv p'"
  unfolding componentInv_def
  by (metis map_eq_imp_length_eq)

lemma componentInv_triggerShockwave:
  "componentInv p \<Longrightarrow> componentInv (triggerShockwave x y f p)"
  by (simp add: componentInv_def triggerShockwave_def)

lemma componentInv_simulationStep:
  "componentInv p \<Longrightarrow> simulationStep w h p = Inr (p', st) \<Longrightarrow> componentInv p'"
  by (rule componentInv_cong) (simp_all add: simulationStep_nodeIdentity simulationStep_edges)

lemma nodeIdentity_pinNode [simp]: "nodeIdentity (pinNode x y n) = nodeIdentity n"
  by (simp add: nodeIdentity_def pinNode_def)

lemma nodeIdentity_resetNode [simp]: "nodeIdentity (resetNode n i) = nodeIdentity n"
  by (simp add: nodeIdentity_def resetNode_def)

lemma componentInv_handleMouseMove:
  assumes "componentInv (physics a)"
  shows "componentInv (physics (handleMouseMove cx cy rl rt a))"
proof (cases "draggingNode a")
  case None
  then show ?thesis using assms by (simp add: handleMouseMove_def)
next
  case (Some d)
  let ?x = "jsub (jsub cx rl) (fst (dragOffset a))"
  let ?y = "jsub (jsub cy rt) (snd (dragOffset a))"
  let ?p1 = "case findIndex (\<lambda>n. nid n = sn_id d) (nodes (physics a)) of
               None \<Rightarrow> physics a
             | Some i \<Rightarrow> (physics a)\<lparr>nodes :=
                 (nodes (physics a))[i := pinNode ?x ?y (nodes (physics a) ! i)]\<rparr>"
  have "componentInv ?p1"
    by (rule componentInv_cong [OF assms])
       (simp_all add: map_update_same split: option.split)
  then show ?thesis
    using Some by (simp add: handleMouseMove_def Let_def componentInv_triggerShockwave)
qed

lemma map_zip_frame:
  "length xs = length ys \<Longrightarrow> (\<And>x y. f (g x y) = f x) \<Longrightarrow>
   map f (map (\<lambda>(x, y). g x y) (zip xs ys)) = map f xs"
  by (induction xs ys rule: list_induct2) simp_all

lemma componentInv_resetNetwork:
  assumes "componentInv p"
  shows "\<exists>p'. resetNetwork p = Inr p' \<and> componentInv p' \<and> shockwaves p' = [] \<and>
           map kinematics (nodes p') =
           map kinematics
             (nodes (usePhysicsEngine INITIAL_NODES INITIAL_EDGES))"
proof -
  have len: "length (nodes p) = length INITIAL_NODES"
    using assms by (simp add: componentInv_def)
  let ?p' = "p\<lparr>nodes := map (\<lambda>(n, init). resetNode n init) (zip (nodes p) INITIAL_NODES),
               shockwaves := []\<rparr>"
  have r: "resetNetwork p = Inr ?p'" using len by (simp add: resetNetwork_def)
  have "map nodeIdentity (nodes ?p') = map nodeIdentity (nodes p)"
    using map_zip_frame [OF len, of nodeIdentity resetNode] by simp
  then have inv: "componentInv ?p'"
    by (intro componentInv_cong [OF assms]) simp_all
  have "map kinematics (map (\<lambda>(n, init). resetNode n init) (zip xs ys))
        = map kinematics (map initNode ys)"
    if "length xs = length ys" for xs ys
    using that by (induction xs ys rule: list_induct2) (simp_all add: resetNode_def initNode_def kinematics_def)
  from this [OF len] have
    "map kinematics (nodes ?p') =
     map kinematics (nodes (usePhysicsEngine INITIAL_NODES INITIAL_EDGES))"
    by (simp add: usePhysicsEngine_def)
  with r inv show ?thesis by simp
qed

lemma randomize_stressOK:
  assumes "\<forall>i. 0 \<le> rnd i \<and> rnd i < 1"
  shows "list_all stressOK (map nodeIdentity (map (\<lambda>(n, i). randomizeNode (rnd i) n) (zip ns is)))"
proof (induction ns arbitrary: "is")
  case Nil
  then show ?case by simp
next
  case (Cons n ns)
  show ?case
  proof (cases "is")
    case Nil
    then show ?thesis by simp
  next
    case (Cons i is')
    have "0 \<le> rnd i" "rnd i \<le> 1" using assms by (simp_all add: less_imp_le)
    then show ?thesis
      using Cons.IH [of is'] Cons
      by (simp add: randomizeNode_def nodeIdentity_def stressOK_def Let_def)
  qed
qed

lemma componentInv_randomizeStress:
  assumes "componentInv p" and "\<forall>i. 0 \<le> rnd i \<and> rnd i < 1"
  shows "componentInv (randomizeStress rnd p)"
  using assms(1) randomize_stressOK [OF assms(2)]
  by (simp add: componentInv_def randomizeStress_def)

lemma componentInv_fire:
  assumes "componentInv (physics a)" "admissible ev" "fire ev a = Inr a'"
  shows "componentInv (physics a')"
proof (cases ev)
  case (Frame w h)
  then show ?thesis
    using assms
    by (auto simp: animate_def split: if_splits sum.splits dest: componentInv_simulationStep)
next
  case (NodeMouseDown cx cy node)
  then show ?thesis using assms by (auto simp: handleNodeMouseDown_def)
next
  case (MouseMove cx cy rl rt)
  then show ?thesis using assms componentInv_handleMouseMove by auto
next
  case MouseUp
  then show ?thesis
    using assms
    by (auto simp: handleMouseUp_def componentInv_triggerShockwave split: option.splits)
next
  case (BackgroundClick b cx cy rl rt)
  then show ?thesis
    using assms
    by (auto simp: handleBackgroundClick_def componentInv_triggerShockwave split: if_splits)
next
  case ResetClick
  then show ?thesis
    using assms componentInv_resetNetwork [OF assms(1)]
    by (auto split: sum.splits)
next
  case (RandomizeClick rnd)
  then show ?thesis using assms componentInv_randomizeStress by auto
qed

lemma reachable_componentInv: "reachable a \<Longrightarrow> componentInv (physics a)"
proof (induction rule: reachable.induct)
  case initial
  show ?case using componentInv_initial by (simp add: initialApp_def)
next
  case (step a ev a')
  then show ?case using componentInv_fire by blast
qed

lemma reachable_fire_succeeds:
  assumes "reachable a"
  shows "\<exists>a'. fire ev a = Inr a'"
proof -
  note inv = reachable_componentInv [OF assms]
  have "edgesInRange (edges (physics a)) (length (nodes (physics a)))"
    using inv component_edgesInRange by (simp add: componentInv_def)
  then have fr: "\<exists>a'. animate w h a = Inr a'" for w h
    using simulationStep_succeeds [of "physics a" w h]
    by (cases "running (physics a)") (auto simp: animate_def)
  from componentInv_resetNetwork [OF inv] 
  have rs: "\<exists>p'. resetNetwork (physics a) = Inr p'" by blast
  show ?thesis using fr rs by (cases ev) auto
qed

section \<open>Dragging\<close>

lemma handleMouseUp_appends_one:
  "draggingNode a = Some d \<Longrightarrow>
   shockwaves (physics (handleMouseUp a)) =
     shockwaves (physics a) @
       [\<lparr>sw_x = sn_x d, sw_y = sn_y d, sw_force = Fin 2000, sw_age = 0\<rparr>]"
  by (simp add: handleMouseUp_def triggerShockwave_def)

lemma handleMouseUp_nodes:
  "nodes (physics (handleMouseUp a)) = nodes (physics a)"
  by (simp add: handleMouseUp_def triggerShockwave_def split: option.split)

lemma pressed_draggingNode:
  "draggingNode pressed =
     Some \<lparr>sn_id = 0, sn_x = Fin 400, sn_y = Fin 100, sn_stress = Fin 0.2, sn_type = SUPPLIER,
           sn_label = ''Raw Materials S1'', sn_vx = Fin 0, sn_vy = Fin 0\<rparr>"
  by (simp add: pressed_def handleNodeMouseDown_def initialApp_def usePhysicsEngine_def
      getNodes_def getNode_def INITIAL_NODES_def initNode_def mkNode_def)

lemma pressed_dragOffset: "dragOffset pressed = (Fin 0, Fin 0)"
  by (simp add: pressed_def handleNodeMouseDown_def initialApp_def usePhysicsEngine_def
      getNodes_def getNode_def INITIAL_NODES_def initNode_def mkNode_def jsub_def)

lemma pressed_physics: "physics pressed = usePhysicsEngine INITIAL_NODES INITIAL_EDGES"
  by (simp add: pressed_def handleNodeMouseDown_def initialApp_def)

lemma dragged_draggingNode: "draggingNode dragged = draggingNode pressed"
  by (simp add: dragged_def handleMouseMove_def Let_def pressed_draggingNode)

lemma dragged_shockwaves:
  "shockwaves (physics dragged) =
     [\<lparr>sw_x = Fin 450, sw_y = Fin 130, sw_force = Fin 500, sw_age = 0\<rparr>]"
  by (simp add: dragged_def handleMouseMove_def Let_def pressed_draggingNode
      pressed_dragOffset pressed_physics triggerShockwave_def usePhysicsEngine_def jsub_def
      split: option.split)

lemma dragged_node0:
  "kinematics (nodes (physics dragged) ! 0) = (Fin 450, Fin 130, Fin 0, Fin 0)"
  by (simp add: dragged_def handleMouseMove_def Let_def pressed_draggingNode
      pressed_dragOffset pressed_physics triggerShockwave_def usePhysicsEngine_def jsub_def
      INITIAL_NODES_def initNode_def mkNode_def pinNode_def kinematics_def)

lemma reachable_pressed: "reachable pressed"
  by (rule reachable.step [OF reachable.initial,
        of "NodeMouseDown (Fin 400) (Fin 100) (getNodes (physics initialApp) ! 0)"])
     (simp_all add: pressed_def)

lemma reachable_dragged: "reachable dragged"
  by (rule reachable.step [OF reachable_pressed,
        of "MouseMove (Fin 450) (Fin 130) (Fin 0) (Fin 0)"])
     (simp_all add: dragged_def)

lemma reachable_released: "reachable released"
  by (rule reachable.step [OF reachable_dragged, of MouseUp]) (simp_all add: released_def)

section \<open>Two ticks of the coincident pair\<close>

lemmas step_defs =
  simulationStep_def accumulateForces_def applyCoulomb_def calculateCoulombRepulsion_def
  coulombTerm_def resetAcceleration_def addForce_def subForce_def
  calculateHookeAttraction_def applyBoundary_def calculateBoundaryForces_def
  applyShockwaveForces_def applyShockwaves_def shockwaveTerm_def integrateNode_def
  totalKineticEnergy_def nodeKineticEnergy_def updateShockwaves_def

lemma coincidentPair_nodes:
  "nodes coincidentPair =
     [\<lparr>nid = 0, ntype = SUPPLIER, nx = Fin 100, ny = Fin 100, nstress = Fin 0.2,
       nlabel = ''A'', nvx = Fin 0, nvy = Fin 0, nax = Fin 0, nay = Fin 0, nmass = Fin 1.1\<rparr>,
      \<lparr>nid = 1, ntype = WAREHOUSE, nx = Fin 100, ny = Fin 100, nstress = Fin 0.4,
       nlabel = ''B'', nvx = Fin 0, nvy = Fin 0, nax = Fin 0, nay = Fin 0, nmass = Fin 1.2\<rparr>]"
  by (simp add: coincidentPair_def usePhysicsEngine_def mkNode_def initNode_def)

lemma coincidentPair_step1:
  "nodesAfter 1 (Fin 1000) (Fin 700) coincidentPair =
     Some [\<lparr>nid = 0, ntype = SUPPLIER, nx = NaN, ny = NaN, nstress = Fin 0.2, nlabel = ''A'',
            nvx = NaN, nvy = NaN, nax = NaN, nay = NaN, nmass = Fin 1.1\<rparr>,
           \<lparr>nid = 1, ntype = WAREHOUSE, nx = NaN, ny = NaN, nstress = Fin 0.4, nlabel = ''B'',
            nvx = NaN, nvy = NaN, nax = NaN, nay = NaN, nmass = Fin 1.2\<rparr>]"
  by (simp add: nodesAfter_def step_defs coincidentPair_def usePhysicsEngine_def
      mkNode_def mkEdge_def initNode_def jsub_def jgt_def constants_defs Let_def)

lemma coincidentPair_step2:
  "nodesAfter 2 (Fin 1000) (Fin 700) coincidentPair =
     Some [\<lparr>nid = 0, ntype = SUPPLIER, nx = NaN, ny = NaN, nstress = Fin 0.2, nlabel = ''A'',
            nvx = NaN, nvy = NaN, nax = NaN, nay = NaN, nmass = Fin 1.1\<rparr>,
           \<lparr>nid = 1, ntype = WAREHOUSE, nx = NaN, ny = NaN, nstress = Fin 0.4, nlabel = ''B'',
            nvx = NaN, nvy = NaN, nax = NaN, nay = NaN, nmass = Fin 1.2\<rparr>]"
  by (simp add: nodesAfter_def numeral_2_eq_2 step_defs coincidentPair_def
      usePhysicsEngine_def mkNode_def mkEdge_def initNode_def jsub_def jgt_def
      constants_defs Let_def)

lemma coincidentPair_edgesInRange:
  "edgesInRange (edges coincidentPair) (length (nodes coincidentPair))"
  by (simp add: coincidentPair_def usePhysicsEngine_def edgesInRange_def mkEdge_def)

lemma sqrt_40000: "sqrt 40000 = 200"
  by (rule real_sqrt_unique) simp_all

lemma reachable_randomized: "reachable randomized"
  by (rule reachable.step [OF reachable_released, of "RandomizeClick (\<lambda>i. 1 / 2)"])
     (simp_all add: randomized_def)

section \<open>An edge of length zero\<close>

lemma jadd_NaN_right [simp]: "jadd x NaN = NaN"
  by (cases x) simp_all

lemma jmul_NaN_right [simp]: "jmul x NaN = NaN"
  by (cases x) simp_all

lemma jsub_NaN_left [simp]: "jsub NaN x = NaN"
  by (simp add: jsub_def)

lemma jsub_NaN_right [simp]: "jsub x NaN = NaN"
  by (simp add: jsub_def)

lemma calculateHookeAttraction_coincidentEdge:
  assumes "coincidentEdge ns e"
  shows "calculateHookeAttraction e ns = Inr (NaN, NaN, Fin 120)"
proof -
  from assms obtain a b where
    "nx (ns ! source e) = Fin a" "ny (ns ! source e) = Fin b"
    by (cases "nx (ns ! source e)"; cases "ny (ns ! source e)")
       (auto simp: coincidentEdge_def)
  with assms show ?thesis
    by (simp add: coincidentEdge_def calculateHookeAttraction_def jsub_def constants_defs Let_def)
qed

lemma nth_map_eq:
  "map g xs = map g ys \<Longrightarrow> i < length xs \<Longrightarrow> g (xs ! i) = g (ys ! i)"
proof -
  assume eq: "map g xs = map g ys" and i: "i < length xs"
  from eq have len: "length xs = length ys" by (rule map_eq_imp_length_eq)
  have "map g xs ! i = map g ys ! i" by (simp only: eq)
  then show ?thesis using i len by simp
qed

lemma coincidentEdge_cong:
  assumes "map resetAcceleration ns' = map resetAcceleration ns"
  shows "coincidentEdge ns' e = coincidentEdge ns e"
proof -
  have len: "length ns' = length ns" using assms by (rule map_eq_imp_length_eq)
  have p: "nx (ns' ! i) = nx (ns ! i) \<and> ny (ns' ! i) = ny (ns ! i)" if "i < length ns" for i
  proof -
    have "resetAcceleration (ns' ! i) = resetAcceleration (ns ! i)"
      using nth_map_eq [OF assms] that len by simp
    then have "kinematics (ns' ! i) = kinematics (ns ! i)"
      by (metis kinematics_resetAcceleration)
    then show ?thesis by (simp add: kinematics_def)
  qed
  show ?thesis
    unfolding coincidentEdge_def len using p by auto
qed

lemma accNaN_addForce [simp]: "accNaN n \<Longrightarrow> accNaN (addForce f n)"
  by (simp add: accNaN_def addForce_def)

lemma accNaN_subForce [simp]: "accNaN n \<Longrightarrow> accNaN (subForce f n)"
  by (simp add: accNaN_def subForce_def)

lemma accNaN_addForce_NaN [simp]: "accNaN (addForce (NaN, NaN) n)"
  by (simp add: accNaN_def addForce_def)

lemma accNaN_subForce_NaN [simp]: "accNaN (subForce (NaN, NaN) n)"
  by (simp add: accNaN_def subForce_def)

lemma accNaN_update:
  "accNaN (ns ! i) \<Longrightarrow> i < length ns \<Longrightarrow> (\<And>n. accNaN n \<Longrightarrow> accNaN (F n)) \<Longrightarrow>
   accNaN (ns[j := F (ns ! j)] ! i)"
  by (cases "i = j") simp_all

lemma applyHooke_accNaN_persists:
  "applyHooke es ns t = Inr (ns', t') \<Longrightarrow> i < length ns \<Longrightarrow> accNaN (ns ! i) \<Longrightarrow>
   accNaN (ns' ! i)"
proof (induction es arbitrary: ns t)
  case Nil
  then show ?case by simp
next
  case (Cons e es)
  from Cons.prems(1) obtain fx fy tn where
    h: "calculateHookeAttraction e ns = Inr (fx, fy, tn)"
    by (auto split: sum.splits)
  let ?ns1 = "ns[source e := addForce (fx, fy) (ns ! source e)]"
  let ?ns2 = "?ns1[target e := subForce (fx, fy) (?ns1 ! target e)]"
  from Cons.prems(1) h have r: "applyHooke es ?ns2 (jadd t tn) = Inr (ns', t')"
    by (simp add: Let_def)
  have 1: "accNaN (?ns1 ! i)"
    by (rule accNaN_update [OF Cons.prems(3) Cons.prems(2)]) simp
  have "accNaN (?ns2 ! i)"
    by (rule accNaN_update [OF 1]) (use Cons.prems(2) in simp_all)
  with r Cons.prems(2) show ?case
    by (intro Cons.IH [of ?ns2]) simp_all
qed

lemma applyHooke_coincident:
  "applyHooke es ns t = Inr (ns', t') \<Longrightarrow> e \<in> set es \<Longrightarrow> coincidentEdge ns e \<Longrightarrow>
   accNaN (ns' ! source e) \<and> accNaN (ns' ! target e)"
proof (induction es arbitrary: ns t)
  case Nil
  then show ?case by simp
next
  case (Cons e' es)
  from Cons.prems(1) obtain fx fy tn where
    h: "calculateHookeAttraction e' ns = Inr (fx, fy, tn)"
    by (auto split: sum.splits)
  let ?ns1 = "ns[source e' := addForce (fx, fy) (ns ! source e')]"
  let ?ns2 = "?ns1[target e' := subForce (fx, fy) (?ns1 ! target e')]"
  from Cons.prems(1) h have r: "applyHooke es ?ns2 (jadd t tn) = Inr (ns', t')"
    by (simp add: Let_def)
  have fr: "map resetAcceleration ?ns2 = map resetAcceleration ns"
    by (simp add: map_update_same)
  have in_range: "source e < length ns" "target e < length ns"
    using Cons.prems(3) by (simp_all add: coincidentEdge_def)
  show ?case
  proof (cases "e' = e")
    case True
    with h Cons.prems(3) have f: "fx = NaN" "fy = NaN"
      by (simp_all add: calculateHookeAttraction_coincidentEdge)
    have s1: "accNaN (?ns1 ! source e)"
      using in_range True by (simp add: f)
    have s2: "accNaN (?ns2 ! source e)"
      by (rule accNaN_update [OF s1]) (use in_range in simp_all)
    have t2: "accNaN (?ns2 ! target e)"
      using in_range True by (simp add: f)
    from applyHooke_accNaN_persists [OF r _ s2] applyHooke_accNaN_persists [OF r _ t2]
    show ?thesis using in_range by simp
  next
    case False
    with Cons.prems(2) have "e \<in> set es" by simp
    moreover have "coincidentEdge ?ns2 e"
      using Cons.prems(3) by (simp only: coincidentEdge_cong [OF fr])
    ultimately show ?thesis using Cons.IH [OF r] by blast
  qed
qed

lemma integrateNode_accNaN:
  assumes "accNaN n"
  shows "nvx (integrateNode n) = NaN" "nvy (integrateNode n) = NaN"
    "nx (integrateNode n) = NaN" "ny (integrateNode n) = NaN"
    "velocityMagnitude (integrateNode n) = NaN"
  using assms
  by (simp_all add: accNaN_def integrateNode_def velocityMagnitude_def magnitude_def
      Let_def jgt_def constants_defs)

lemma accumulateForces_coincident:
  assumes "accumulateForces w h s = Inr (ns, t)" "e \<in> set (edges s)"
    "coincidentEdge (nodes s) e"
  shows "accNaN (ns ! source e) \<and> accNaN (ns ! target e)"
proof -
  let ?c = "applyCoulomb (map resetAcceleration (nodes s))"
  from assms(1) obtain ns0 where
    hk: "applyHooke (edges s) ?c (Fin 0) = Inr (ns0, t)"
    and ns: "ns = applyShockwaveForces (shockwaves s) (applyBoundary w h ns0)"
    by (auto simp: accumulateForces_def split: sum.splits)
  have c: "map resetAcceleration ?c = map resetAcceleration (nodes s)"
    by (simp add: applyCoulomb_frame)
  have "coincidentEdge ?c e"
    using assms(3) by (simp only: coincidentEdge_cong [OF c])
  from applyHooke_coincident [OF hk assms(2) this]
  have a: "accNaN (ns0 ! source e)" "accNaN (ns0 ! target e)" by simp_all
  have "length ns0 = length ?c"
    using applyHooke_frame [OF hk] by (rule map_eq_imp_length_eq)
  then have len: "length ns0 = length (nodes s)"
    by (simp add: applyCoulomb_length)
  have r: "source e < length ns0" "target e < length ns0"
    using assms(3) len by (simp_all add: coincidentEdge_def)
  show ?thesis
    using a r by (simp add: ns applyShockwaveForces_def applyBoundary_def)
qed

lemma simulationStep_coincident:
  assumes "simulationStep w h s = Inr (s', st)" "e \<in> set (edges s)"
    "coincidentEdge (nodes s) e"
  shows "velocityMagnitude (nodes s' ! source e) = NaN"
    and "velocityMagnitude (nodes s' ! target e) = NaN"
    and "nx (nodes s' ! source e) = NaN" and "nx (nodes s' ! target e) = NaN"
proof -
  from simulationStep_result [OF assms(1)] obtain ns t where
    acc: "accumulateForces w h s = Inr (ns, t)" and
    s': "nodes s' = map integrateNode ns" by auto
  have len: "length ns = length (nodes s)" by (rule accumulateForces_length [OF acc])
  have r: "source e < length ns" "target e < length ns"
    using assms(3) len by (simp_all add: coincidentEdge_def)
  note a = accumulateForces_coincident [OF acc assms(2,3)]
  show "velocityMagnitude (nodes s' ! source e) = NaN"
    and "velocityMagnitude (nodes s' ! target e) = NaN"
    and "nx (nodes s' ! source e) = NaN" and "nx (nodes s' ! target e) = NaN"
    using a r by (simp_all add: s' integrateNode_accNaN)
qed

lemma stacked_physics_nodes:
  "kinematics (nodes (physics stacked) ! 0) = (Fin 300, Fin 350, Fin 0, Fin 0)"
  "kinematics (nodes (physics stacked) ! 3) = (Fin 300, Fin 350, Fin 0, Fin 0)"
  "length (nodes (physics stacked)) = length INITIAL_NODES"
  "edges (physics stacked) = INITIAL_EDGES"
  by (simp_all add: stacked_def handleMouseMove_def Let_def pressed_draggingNode
      pressed_dragOffset pressed_physics triggerShockwave_def usePhysicsEngine_def jsub_def
      INITIAL_NODES_def initNode_def mkNode_def pinNode_def kinematics_def)

lemma stacked_coincident:
  "coincidentEdge (nodes (physics stacked)) (mkEdge None 0 3)"
  using stacked_physics_nodes
  by (simp add: coincidentEdge_def mkEdge_def kinematics_def INITIAL_NODES_def)

lemma stacked_edge: "mkEdge None 0 3 \<in> set (edges (physics stacked))"
  by (simp add: stacked_physics_nodes INITIAL_EDGES_def)

lemma reachable_stacked: "reachable stacked"
  by (rule reachable.step [OF reachable_pressed,
        of "MouseMove (Fin 300) (Fin 350) (Fin 0) (Fin 0)"])
     (simp_all add: stacked_def)

lemma stacked_step:
  "\<exists>n0 n3. nodeAfter 0 1 (Fin 1000) (Fin 700) (physics stacked) = Some n0 \<and>
           nodeAfter 3 1 (Fin 1000) (Fin 700) (physics stacked) = Some n3 \<and>
           velocityMagnitude n0 = NaN \<and> velocityMagnitude n3 = NaN"
proof -
  have "edgesInRange (edges (physics stacked)) (length (nodes (physics stacked)))"
    using component_edgesInRange by (simp add: stacked_physics_nodes)
  then obtain s' st where
    st: "simulationStep (Fin 1000) (Fin 700) (physics stacked) = Inr (s', st)"
    using simulationStep_succeeds by blast
  from simulationStep_coincident(1,2) [OF st stacked_edge stacked_coincident]
  have "velocityMagnitude (nodes s' ! 0) = NaN" "velocityMagnitude (nodes s' ! 3) = NaN"
    by (simp_all add: mkEdge_def)
  then show ?thesis using st by (simp add: nodeAfter_def)
qed

section \<open>The claims\<close>

text \<open>
  C1. The claim: the step removes a shockwave exactly when its decayed magnitude
  \<open>force * decay ^ age\<close> falls below 0.1 or its age exceeds 300, so that a shockwave of
  force 1000 is gone near age 184. The step compares the undecayed \<open>force\<close> field with
  0.1: the shockwave of force 1000 is still active at age 180, where its decayed
  magnitude is below 0.1, and at age 299; it is removed by the 300th tick.
\<close>

theorem shockwave_1000_lives_300_ticks:
  "jlt (jmul (Fin 1000) (jpow SHOCKWAVE_DECAY 180)) (Fin 0.1) \<and>
   shockwavesAfter 180 (Fin 1000) (Fin 700) shocked =
     Some [\<lparr>sw_x = Fin 500, sw_y = Fin 300, sw_force = Fin 1000, sw_age = 180\<rparr>] \<and>
   shockwavesAfter 299 (Fin 1000) (Fin 700) shocked =
     Some [\<lparr>sw_x = Fin 500, sw_y = Fin 300, sw_force = Fin 1000, sw_age = 299\<rparr>] \<and>
   shockwavesAfter 300 (Fin 1000) (Fin 700) shocked = Some []"
proof -
  have "jlt (jmul (Fin 1000) (jpow SHOCKWAVE_DECAY 180)) (Fin 0.1)"
    by (simp add: SHOCKWAVE_DECAY_def jpow_Fin power_divide)
  moreover have "shockwavesAfter 180 (Fin 1000) (Fin 700) shocked =
     Some [\<lparr>sw_x = Fin 500, sw_y = Fin 300, sw_force = Fin 1000, sw_age = 180\<rparr>]"
    by (simp add: shockwavesAfter_funpow [OF shocked_edgesInRange] shocked_funpow)
  moreover have "shockwavesAfter 299 (Fin 1000) (Fin 700) shocked =
     Some [\<lparr>sw_x = Fin 500, sw_y = Fin 300, sw_force = Fin 1000, sw_age = 299\<rparr>]"
    by (simp add: shockwavesAfter_funpow [OF shocked_edgesInRange] shocked_funpow)
  moreover have "shockwavesAfter 300 (Fin 1000) (Fin 700) shocked = Some []"
    by (simp add: shockwavesAfter_funpow [OF shocked_edgesInRange] shocked_funpow_300)
  ultimately show ?thesis by blast
qed

text \<open>
  C2. The claim: for an edge whose end points are at the same position, the spring-force
  computation guards the case and returns finite force components. It does not:
  \<^verbatim>\<open>calculateHookeAttraction\<close> divides by the distance 0, and both components are NaN.
  The repulsion and the shockwave forces add 1 to the distance for this reason.
\<close>

theorem calculateHookeAttraction_coincident:
  assumes "source e < length ns" "target e < length ns"
    and "nx (ns ! source e) = Fin a" "nx (ns ! target e) = Fin a"
    and "ny (ns ! source e) = Fin b" "ny (ns ! target e) = Fin b"
  shows "calculateHookeAttraction e ns = Inr (NaN, NaN, Fin 120)"
  using assms
  by (simp add: calculateHookeAttraction_def jsub_def constants_defs Let_def)

theorem calculateHookeAttraction_coincident_witness:
  "calculateHookeAttraction (mkEdge None 0 1) (nodes coincidentPair) = Inr (NaN, NaN, Fin 120)"
  using calculateHookeAttraction_coincident [of "mkEdge None 0 1" "nodes coincidentPair" 100 100]
  by (simp add: coincidentPair_nodes mkEdge_def)

text \<open>
  C3. The claim: after any number of steps every node's speed is at most
  \<open>MAX_VELOCITY\<close>. One step of the coincident pair leaves both nodes with the speed
  NaN, which is not at most 15: the NaN of the spring force passes the test
  \<^verbatim>\<open>speed > MAX_VELOCITY\<close>, which is false for NaN. The same happens in the
  component when node 0 is dragged onto node 3: after the next step both have the speed
  NaN. (For finite velocity and acceleration the bound holds: lemma
  \<open>integrateNode_speed_bound\<close>.)
\<close>

theorem coincident_edge_breaks_velocity_cap:
  "map_option (map velocityMagnitude) (nodesAfter 1 (Fin 1000) (Fin 700) coincidentPair)
     = Some [NaN, NaN] \<and>
   map_option (map withinCap) (nodesAfter 1 (Fin 1000) (Fin 700) coincidentPair)
     = Some [False, False] \<and>
   map_option velocityMagnitude (nodeAfter 0 1 (Fin 1000) (Fin 700) (physics stacked))
     = Some NaN \<and>
   map_option withinCap (nodeAfter 0 1 (Fin 1000) (Fin 700) (physics stacked))
     = Some False \<and>
   map_option withinCap (nodeAfter 3 1 (Fin 1000) (Fin 700) (physics stacked))
     = Some False"
proof -
  have "map_option (map velocityMagnitude) (nodesAfter 1 (Fin 1000) (Fin 700) coincidentPair)
     = Some [NaN, NaN]"
    unfolding coincidentPair_step1 by (simp add: velocityMagnitude_def magnitude_def)
  moreover have
    "map_option (map withinCap) (nodesAfter 1 (Fin 1000) (Fin 700) coincidentPair)
     = Some [False, False]"
    unfolding coincidentPair_step1
    by (simp add: withinCap_def velocityMagnitude_def magnitude_def)
  moreover from stacked_step have
    "map_option velocityMagnitude (nodeAfter 0 1 (Fin 1000) (Fin 700) (physics stacked))
       = Some NaN"
    "map_option withinCap (nodeAfter 0 1 (Fin 1000) (Fin 700) (physics stacked)) = Some False"
    "map_option withinCap (nodeAfter 3 1 (Fin 1000) (Fin 700) (physics stacked)) = Some False"
    by (auto simp: withinCap_def)
  ultimately show ?thesis by (intro conjI)
qed

text \<open>
  C4. The claim: releasing a dragged node appends one shockwave whose origin is the
  node's position at release. One shockwave is appended (lemma
  \<open>handleMouseUp_appends_one\<close>), but at the coordinates of \<open>draggingNode\<close>, the copy of
  the node made when the mouse went down: after the drag of node 0 from (400, 100) to
  (450, 130) the node is at (450, 130) and the shockwave of force 2000 is at (400, 100).
\<close>

theorem release_shockwave_at_press_position:
  "shockwaves (physics released) =
     [\<lparr>sw_x = Fin 450, sw_y = Fin 130, sw_force = Fin 500, sw_age = 0\<rparr>,
      \<lparr>sw_x = Fin 400, sw_y = Fin 100, sw_force = Fin 2000, sw_age = 0\<rparr>] \<and>
   kinematics (nodes (physics released) ! 0) = (Fin 450, Fin 130, Fin 0, Fin 0)"
  using handleMouseUp_appends_one [of dragged, OF dragged_draggingNode [unfolded pressed_draggingNode]]
  by (simp add: released_def handleMouseUp_nodes dragged_shockwaves dragged_node0)

text \<open>
  C5. The claim: the repulsion that a node receives from another one has the magnitude
  \<open>5000 * (1 + stress * 0.7) / (distance + 1)\<^sup>2\<close>. The code divides the offset by
  \<open>distance + 1\<close>, not by the distance, so the magnitude is smaller by the factor
  \<open>distance / (distance + 1)\<close>: for the suppliers S1 and S2, 200 apart, it is
  \<open>1140000 / 8120601\<close> and not \<open>5700 / 40401\<close>.
\<close>

theorem repulsion_magnitude_counterexample:
  "spec_repulsionMagnitude nodeS1 nodeS2 = Fin (5700 / 40401) \<and>
   coulombTerm nodeS1 nodeS2 = (Fin (- (1140000 / 8120601)), Fin 0) \<and>
   magnitude (fst (coulombTerm nodeS1 nodeS2)) (snd (coulombTerm nodeS1 nodeS2))
     = Fin (1140000 / 8120601) \<and>
   magnitude (fst (coulombTerm nodeS1 nodeS2)) (snd (coulombTerm nodeS1 nodeS2))
     \<noteq> spec_repulsionMagnitude nodeS1 nodeS2"
proof -
  have n: "nx nodeS1 = Fin 400" "ny nodeS1 = Fin 100" "nx nodeS2 = Fin 600" "ny nodeS2 = Fin 100"
    "nstress nodeS1 = Fin 0.2"
    by (simp_all add: nodeS1_def nodeS2_def initNode_def mkNode_def)
  have d: "planarDistance 400 100 600 100 = 200"
    by (simp add: planarDistance_def sqrt_40000)
  note f = coulombTerm_finite [OF n, unfolded d]
  have "spec_repulsionMagnitude nodeS1 nodeS2 = Fin (5700 / 40401)"
    using f(2) by simp
  moreover have "coulombTerm nodeS1 nodeS2 = (Fin (- (1140000 / 8120601)), Fin 0)"
    using f(3) by simp
  moreover have "magnitude (fst (coulombTerm nodeS1 nodeS2)) (snd (coulombTerm nodeS1 nodeS2))
     = Fin (1140000 / 8120601)"
    using f(4) by simp
  ultimately show ?thesis by simp
qed

text \<open>
  C5, as the code has it. For finite positions and a stress \<open>st \<ge> 0\<close>, with \<open>d\<close> the
  distance of the two nodes and \<open>M = 5000 * (1 + st * 0.7) / (d + 1)\<^sup>2\<close>, the magnitude of
  the claim: the repulsion of \<open>node\<close> by \<open>other\<close> is the offset \<open>node - other\<close> times the
  positive factor \<open>M / (d + 1)\<close>, so it points away from \<open>other\<close>, and its magnitude is
  \<open>M * d / (d + 1)\<close>. In an array of these two nodes it is all of the repulsion of the
  first.
\<close>

theorem repulsion_magnitude:
  assumes "nx node = Fin x1" "ny node = Fin y1" "nx other = Fin x2" "ny other = Fin y2"
    and "nstress node = Fin st" and "0 \<le> st"
  defines "d \<equiv> planarDistance x1 y1 x2 y2"
  defines "M \<equiv> 5000 * (1 + st * 0.7) / ((d + 1) * (d + 1))"
  shows "distance node other = Fin d \<and>
         spec_repulsionMagnitude node other = Fin M \<and> 0 < M / (d + 1) \<and>
         coulombTerm node other = (Fin ((x1 - x2) * (M / (d + 1))), Fin ((y1 - y2) * (M / (d + 1)))) \<and>
         calculateCoulombRepulsion 0 [node, other] = coulombTerm node other \<and>
         magnitude (fst (coulombTerm node other)) (snd (coulombTerm node other))
           = Fin (M * (d / (d + 1)))"
proof -
  note f = coulombTerm_finite [OF assms(1-6), folded d_def, folded M_def]
  have "0 < M / (d + 1)" using f(5,6) by simp
  moreover have "calculateCoulombRepulsion 0 [node, other] = coulombTerm node other"
    by (simp add: calculateCoulombRepulsion_pair f(3))
  ultimately show ?thesis using f(1,2,3,4) by simp
qed

theorem repulsion_magnitude_witness:
  "nx nodeS1 = Fin 400 \<and> ny nodeS1 = Fin 100 \<and> nx nodeS2 = Fin 600 \<and> ny nodeS2 = Fin 100 \<and>
   nstress nodeS1 = Fin 0.2 \<and>
   calculateCoulombRepulsion 0 [nodeS1, nodeS2] = (Fin (- (1140000 / 8120601)), Fin 0) \<and>
   magnitude (fst (coulombTerm nodeS1 nodeS2)) (snd (coulombTerm nodeS1 nodeS2))
     = Fin (1140000 / 8120601)"
proof -
  have n: "nx nodeS1 = Fin 400" "ny nodeS1 = Fin 100" "nx nodeS2 = Fin 600" "ny nodeS2 = Fin 100"
    "nstress nodeS1 = Fin 0.2"
    by (simp_all add: nodeS1_def nodeS2_def initNode_def mkNode_def)
  have d: "planarDistance 400 100 600 100 = 200"
    by (simp add: planarDistance_def sqrt_40000)
  have "(0::real) \<le> 0.2" by simp
  note r = repulsion_magnitude [OF n this, unfolded d]
  from r have "calculateCoulombRepulsion 0 [nodeS1, nodeS2] =
      (Fin ((400 - 600) * (5000 * (1 + 0.2 * 0.7) / ((200 + 1) * (200 + 1)) / (200 + 1))),
       Fin ((100 - 100) * (5000 * (1 + 0.2 * 0.7) / ((200 + 1) * (200 + 1)) / (200 + 1))))"
    by (elim conjE) (erule trans, assumption)
  then have c: "calculateCoulombRepulsion 0 [nodeS1, nodeS2] =
      (Fin (- (1140000 / 8120601)), Fin 0)"
    by simp
  from r have "magnitude (fst (coulombTerm nodeS1 nodeS2)) (snd (coulombTerm nodeS1 nodeS2))
      = Fin (5000 * (1 + 0.2 * 0.7) / ((200 + 1) * (200 + 1)) * (200 / (200 + 1)))"
    by (elim conjE)
  then have m: "magnitude (fst (coulombTerm nodeS1 nodeS2)) (snd (coulombTerm nodeS1 nodeS2))
      = Fin (1140000 / 8120601)"
    by (simp only:) simp
  from n c m show ?thesis by (intro conjI)
qed

text \<open>
  C6. In every state that the component reaches (by ticks, drags, clicks, resets and
  randomizations of the stress), every node's mass is \<open>1 + stress * 0.5\<close>, and at
  least 1.
\<close>

theorem mass_derived_from_stress:
  assumes "reachable a"
  shows "\<forall>n \<in> set (nodes (physics a)).
           nmass n = jadd (Fin 1) (jmul (nstress n) (Fin 0.5)) \<and> jle (Fin 1) (nmass n)"
proof
  fix n assume "n \<in> set (nodes (physics a))"
  moreover have "list_all stressOK (map nodeIdentity (nodes (physics a)))"
    using reachable_componentInv [OF assms] by (simp add: componentInv_def)
  ultimately have "stressOK (nodeIdentity n)"
    by (simp add: list_all_iff)
  then show "nmass n = jadd (Fin 1) (jmul (nstress n) (Fin 0.5)) \<and> jle (Fin 1) (nmass n)"
    by (cases "nstress n") (simp_all add: stressOK_def nodeIdentity_def)
qed

theorem mass_derived_from_stress_witness:
  "reachable randomized \<and> length (nodes (physics randomized)) = 11 \<and>
   list_all (\<lambda>n. nmass n = jadd (Fin 1) (jmul (nstress n) (Fin 0.5)) \<and> jle (Fin 1) (nmass n))
     (nodes (physics randomized))"
proof -
  have "length (nodes (physics randomized)) = 11"
    using reachable_componentInv [OF reachable_randomized]
    by (simp add: componentInv_def INITIAL_NODES_def)
  moreover have
    "list_all (\<lambda>n. nmass n = jadd (Fin 1) (jmul (nstress n) (Fin 0.5)) \<and> jle (Fin 1) (nmass n))
       (nodes (physics randomized))"
    unfolding list_all_iff by (rule mass_derived_from_stress [OF reachable_randomized])
  ultimately show ?thesis
    using reachable_randomized by (intro conjI)
qed

text \<open>
  C7. A step that returns has integrated every node in the order of the specification:
  with \<open>ns\<close> the nodes of the old state carrying the accelerations of this tick (their
  other fields unchanged), the new nodes are \<open>ns\<close> after step 1 (acceleration), step 2
  (damping), step 3 (clamp) and step 4 (position), each with the fixed \<open>dt = 0.016\<close>.
\<close>

theorem simulationStep_integration_order:
  assumes "simulationStep w h s = Inr (s', st)"
  shows "\<exists>ns t. accumulateForces w h s = Inr (ns, t) \<and>
           map kinematics ns = map kinematics (nodes s) \<and>
           map nodeIdentity ns = map nodeIdentity (nodes s) \<and>
           nodes s' = map (\<lambda>n. spec_move (spec_clamp (spec_damp (spec_accelerate n)))) ns"
proof -
  from simulationStep_result [OF assms] obtain ns t where
    acc: "accumulateForces w h s = Inr (ns, t)" and
    s': "nodes s' = map integrateNode ns" by auto
  have "nodes s' = map (\<lambda>n. spec_move (spec_clamp (spec_damp (spec_accelerate n)))) ns"
    by (simp add: s' integrateNode_spec spec_integrate_def)
  then show ?thesis
    using acc accumulateForces_kinematics [OF acc] accumulateForces_nodeIdentity [OF acc]
    by blast
qed

theorem simulationStep_integration_order_witness:
  "\<exists>s' st ns t.
     simulationStep (Fin 1000) (Fin 700) (usePhysicsEngine INITIAL_NODES INITIAL_EDGES)
       = Inr (s', st) \<and>
     accumulateForces (Fin 1000) (Fin 700) (usePhysicsEngine INITIAL_NODES INITIAL_EDGES)
       = Inr (ns, t) \<and>
     length ns = 11 \<and>
     nodes s' = map (\<lambda>n. spec_move (spec_clamp (spec_damp (spec_accelerate n)))) ns"
proof -
  let ?s = "usePhysicsEngine INITIAL_NODES INITIAL_EDGES"
  have "edgesInRange (edges ?s) (length (nodes ?s))"
    using component_edgesInRange by (simp add: usePhysicsEngine_def)
  then obtain s' st where
    st: "simulationStep (Fin 1000) (Fin 700) ?s = Inr (s', st)"
    using simulationStep_succeeds by blast
  from simulationStep_integration_order [OF st] obtain ns t where
    acc: "accumulateForces (Fin 1000) (Fin 700) ?s = Inr (ns, t)" and
    n: "nodes s' = map (\<lambda>n. spec_move (spec_clamp (spec_damp (spec_accelerate n)))) ns"
    by blast
  have "length ns = 11"
    using accumulateForces_length [OF acc]
    by (simp add: usePhysicsEngine_def INITIAL_NODES_def)
  with st acc n show ?thesis by blast
qed

text \<open>
  C8. The claim: a non-finite position or velocity is detected and reset before the
  next force computation. Nothing in the step tests for one: the coincident pair has
  NaN positions and velocities after its first tick, the second tick computes its forces
  from them, and they are NaN after it as well.
\<close>

theorem nonfinite_is_not_reset:
  "map_option (map finiteKinematics) (nodesAfter 1 (Fin 1000) (Fin 700) coincidentPair)
     = Some [(False, False, False, False), (False, False, False, False)] \<and>
   map_option (map finiteKinematics) (nodesAfter 2 (Fin 1000) (Fin 700) coincidentPair)
     = Some [(False, False, False, False), (False, False, False, False)]"
  unfolding coincidentPair_step1 coincidentPair_step2
  by (simp add: finiteKinematics_def)

text \<open>
  C8, as the code has it. A step keeps what is not finite: a node whose position
  coordinate is NaN or infinite has a non-finite coordinate after the step, and a node
  whose velocity component is NaN or infinite has a non-finite velocity component and
  a non-finite position coordinate after it.
\<close>

theorem simulationStep_keeps_nonfinite:
  assumes "simulationStep w h s = Inr (s', st)" and "i < length (nodes s)"
  shows "(\<not> isFinite (nx (nodes s ! i)) \<longrightarrow> \<not> isFinite (nx (nodes s' ! i))) \<and>
         (\<not> isFinite (ny (nodes s ! i)) \<longrightarrow> \<not> isFinite (ny (nodes s' ! i))) \<and>
         (\<not> isFinite (nvx (nodes s ! i)) \<longrightarrow>
            \<not> isFinite (nvx (nodes s' ! i)) \<and> \<not> isFinite (nx (nodes s' ! i))) \<and>
         (\<not> isFinite (nvy (nodes s ! i)) \<longrightarrow>
            \<not> isFinite (nvy (nodes s' ! i)) \<and> \<not> isFinite (ny (nodes s' ! i)))"
proof -
  from simulationStep_nth [OF assms] obtain m where
    m: "nodes s' ! i = integrateNode m" and k: "kinematics m = kinematics (nodes s ! i)"
    by blast
  from k have e: "nx (nodes s ! i) = nx m" "ny (nodes s ! i) = ny m"
    "nvx (nodes s ! i) = nvx m" "nvy (nodes s ! i) = nvy m"
    by (simp_all add: kinematics_def)
  show ?thesis
    unfolding m e
    using integrateNode_nonfinite_x [of m] integrateNode_nonfinite_y [of m]
      integrateNode_nonfinite_vx [of m] integrateNode_nonfinite_vy [of m]
    by blast
qed

theorem simulationStep_keeps_nonfinite_witness:
  "\<exists>s1 s2 st.
     steps 1 (Fin 1000) (Fin 700) coincidentPair = Inr s1 \<and>
     simulationStep (Fin 1000) (Fin 700) s1 = Inr (s2, st) \<and>
     0 < length (nodes s1) \<and> \<not> isFinite (nvx (nodes s1 ! 0)) \<and>
     \<not> isFinite (nvx (nodes s2 ! 0)) \<and> \<not> isFinite (nx (nodes s2 ! 0))"
proof -
  from steps_succeeds [OF coincidentPair_edgesInRange, of 1 "Fin 1000" "Fin 700"]
  obtain s1 where s1: "steps 1 (Fin 1000) (Fin 700) coincidentPair = Inr s1" by blast
  then have n1: "nodes s1 =
     [\<lparr>nid = 0, ntype = SUPPLIER, nx = NaN, ny = NaN, nstress = Fin 0.2, nlabel = ''A'',
       nvx = NaN, nvy = NaN, nax = NaN, nay = NaN, nmass = Fin 1.1\<rparr>,
      \<lparr>nid = 1, ntype = WAREHOUSE, nx = NaN, ny = NaN, nstress = Fin 0.4, nlabel = ''B'',
       nvx = NaN, nvy = NaN, nax = NaN, nay = NaN, nmass = Fin 1.2\<rparr>]"
    using coincidentPair_step1 by (simp add: nodesAfter_def)
  have e1: "edges s1 = edges coincidentPair"
    using s1 by (auto split: sum.splits dest: simulationStep_edges)
  have "edgesInRange (edges s1) (length (nodes s1))"
    using coincidentPair_edgesInRange by (simp add: e1 n1 coincidentPair_nodes)
  then obtain s2 st where s2: "simulationStep (Fin 1000) (Fin 700) s1 = Inr (s2, st)"
    using simulationStep_succeeds by blast
  have len: "0 < length (nodes s1)" and nf: "\<not> isFinite (nvx (nodes s1 ! 0))"
    by (simp_all add: n1)
  from simulationStep_keeps_nonfinite [OF s2 len] nf
  have "\<not> isFinite (nvx (nodes s2 ! 0)) \<and> \<not> isFinite (nx (nodes s2 ! 0))" by blast
  with s1 s2 len nf show ?thesis by blast
qed

text \<open>
  C9. In every state that the component reaches, "Reset Network" returns, and after it
  every node has the position and the velocity that \<^verbatim>\<open>usePhysicsEngine\<close> gave it at
  construction, and no shockwave is active.
\<close>

theorem reset_restores_construction:
  assumes "reachable a"
  shows "\<exists>p. resetNetwork (physics a) = Inr p \<and>
           map kinematics (nodes p) =
             map kinematics (nodes (usePhysicsEngine INITIAL_NODES INITIAL_EDGES)) \<and>
           shockwaves p = []"
  using componentInv_resetNetwork [OF reachable_componentInv [OF assms]]
  by blast

theorem reset_restores_construction_witness:
  "reachable dragged \<and>
   kinematics (nodes (physics dragged) ! 0) = (Fin 450, Fin 130, Fin 0, Fin 0) \<and>
   shockwaves (physics dragged) \<noteq> [] \<and>
   (\<exists>p. resetNetwork (physics dragged) = Inr p \<and>
        map kinematics (nodes p) =
          [(Fin 400, Fin 100, Fin 0, Fin 0), (Fin 600, Fin 100, Fin 0, Fin 0),
           (Fin 500, Fin 200, Fin 0, Fin 0), (Fin 300, Fin 350, Fin 0, Fin 0),
           (Fin 700, Fin 350, Fin 0, Fin 0), (Fin 500, Fin 450, Fin 0, Fin 0),
           (Fin 150, Fin 550, Fin 0, Fin 0), (Fin 350, Fin 550, Fin 0, Fin 0),
           (Fin 500, Fin 580, Fin 0, Fin 0), (Fin 650, Fin 550, Fin 0, Fin 0),
           (Fin 800, Fin 520, Fin 0, Fin 0)] \<and>
        shockwaves p = [])"
proof -
  have "map kinematics (nodes (usePhysicsEngine INITIAL_NODES INITIAL_EDGES)) =
          [(Fin 400, Fin 100, Fin 0, Fin 0), (Fin 600, Fin 100, Fin 0, Fin 0),
           (Fin 500, Fin 200, Fin 0, Fin 0), (Fin 300, Fin 350, Fin 0, Fin 0),
           (Fin 700, Fin 350, Fin 0, Fin 0), (Fin 500, Fin 450, Fin 0, Fin 0),
           (Fin 150, Fin 550, Fin 0, Fin 0), (Fin 350, Fin 550, Fin 0, Fin 0),
           (Fin 500, Fin 580, Fin 0, Fin 0), (Fin 650, Fin 550, Fin 0, Fin 0),
           (Fin 800, Fin 520, Fin 0, Fin 0)]"
    by (simp add: usePhysicsEngine_def INITIAL_NODES_def initNode_def mkNode_def kinematics_def)
  then show ?thesis
    using reset_restores_construction [OF reachable_dragged] reachable_dragged
      dragged_node0 dragged_shockwaves
    by simp
qed

text \<open>
  C10. A step that returns leaves the number of nodes, every node's id, type, stress,
  mass and label, the edge list and the running flag as they were; every shockwave it
  keeps is a shockwave of the state before, one tick older.
\<close>

theorem simulationStep_frame:
  assumes "simulationStep w h s = Inr (s', st)"
  shows "length (nodes s') = length (nodes s) \<and>
         map nid (nodes s') = map nid (nodes s) \<and>
         map ntype (nodes s') = map ntype (nodes s) \<and>
         map nstress (nodes s') = map nstress (nodes s) \<and>
         map nmass (nodes s') = map nmass (nodes s) \<and>
         map nlabel (nodes s') = map nlabel (nodes s) \<and>
         edges s' = edges s \<and> running s' = running s \<and>
         set (shockwaves s') \<subseteq> ageShockwave ` set (shockwaves s)"
proof -
  note idn = simulationStep_nodeIdentity [OF assms]
  have "set (shockwaves s') \<subseteq> ageShockwave ` set (shockwaves s)"
    by (auto simp: simulationStep_shockwaves [OF assms] updateShockwaves_def)
  then show ?thesis
    using map_via_nodeIdentity [OF idn] simulationStep_length [OF assms]
      simulationStep_edges [OF assms] simulationStep_running [OF assms]
    by simp
qed

theorem simulationStep_frame_witness:
  "\<exists>s' st. simulationStep (Fin 1000) (Fin 700)
              (usePhysicsEngine INITIAL_NODES INITIAL_EDGES) = Inr (s', st) \<and>
     map nid (nodes s') = [0, 1, 2, 3, 4, 5, 6, 7, 8, 9, 10] \<and>
     edges s' = INITIAL_EDGES \<and> running s'"
proof -
  let ?s = "usePhysicsEngine INITIAL_NODES INITIAL_EDGES"
  have "edgesInRange (edges ?s) (length (nodes ?s))"
    using component_edgesInRange by (simp add: usePhysicsEngine_def)
  then obtain s' st where
    st: "simulationStep (Fin 1000) (Fin 700) ?s = Inr (s', st)"
    using simulationStep_succeeds by blast
  have "map nid (nodes ?s) = [0, 1, 2, 3, 4, 5, 6, 7, 8, 9, 10]"
    by (simp add: usePhysicsEngine_def INITIAL_NODES_def initNode_def mkNode_def)
  moreover have "edges ?s = INITIAL_EDGES" "running ?s"
    by (simp_all add: usePhysicsEngine_def)
  ultimately show ?thesis
    using simulationStep_frame [OF st] st by auto
qed

end
